theory Spec2Isabelle
  imports Main
begin

section \<open>Go values used by clabot\<close>

text \<open>
  Go strings are byte sequences, modelled as \<open>string\<close>. The functions of package
  \<open>strings\<close> that \<open>cmd/clabot.go\<close> calls are modelled on bytes; they agree with Go
  on ASCII text. For bytes from 0x80 on, Go decodes UTF-8 and consults Unicode tables
  (other letters with a lower-case form, other white space); the model leaves such bytes
  alone. \<open>HasPrefix\<close>, \<open>Contains\<close> and \<open>Split\<close> compare bytes in Go as well. The
  theorems about all strings below hold for any \<open>ToLower\<close> and \<open>TrimSpace\<close>: their
  proofs do not unfold the two functions, which are evaluated on ASCII examples only.
\<close>

definition lowerByte :: "char \<Rightarrow> char" where
  \<comment> \<open>\<open>if 'A' <= c && c <= 'Z' { c += 'a' - 'A' }\<close>\<close>
  "lowerByte c =
     (let n = (of_char c :: nat) in if 65 \<le> n \<and> n \<le> 90 then char_of (n + 32) else c)"

definition ToLower :: "string \<Rightarrow> string" where
  "ToLower s = map lowerByte s"

definition asciiSpace :: "char \<Rightarrow> bool" where
  \<comment> \<open>\<open>'\t', '\n', '\v', '\f', '\r', ' '\<close>\<close>
  "asciiSpace c = ((of_char c :: nat) \<in> {9, 10, 11, 12, 13, 32})"

definition TrimSpace :: "string \<Rightarrow> string" where
  "TrimSpace s = rev (dropWhile asciiSpace (rev (dropWhile asciiSpace s)))"

definition HasPrefix :: "string \<Rightarrow> string \<Rightarrow> bool" where
  \<comment> \<open>\<open>len(s) >= len(prefix) && s[:len(prefix)] == prefix\<close>\<close>
  "HasPrefix s prefix = (length prefix \<le> length s \<and> take (length prefix) s = prefix)"

fun Contains :: "string \<Rightarrow> string \<Rightarrow> bool" where
  "Contains [] substr = (substr = [])"
| "Contains (c # s) substr = (HasPrefix (c # s) substr \<or> Contains s substr)"

text \<open>
  \<open>strings.Split(s, sep)\<close> for a separator of one byte, which is all the program uses
  (\<open>"/"\<close>, \<open>","\<close> and \<open>"\n"\<close>): the fields between the separators, in order; always at
  least one field.
\<close>

fun Split :: "string \<Rightarrow> char \<Rightarrow> string list" where
  "Split [] sep = [[]]"
| "Split (c # s) sep =
     (if c = sep then [] # Split s sep
      else (case Split s sep of [] \<Rightarrow> [[c]] | f # fs \<Rightarrow> (c # f) # fs))"

text \<open>
  A value of type \<open>map[string]struct{}\<close> is a finite set of keys. It is modelled as the
  list of its keys without repetition; \<open>m[k] = struct{}{}\<close> is \<open>put\<close>, the lookup
  \<open>_, ok := m[k]\<close> is \<open>has\<close>, and \<open>for k := range m\<close> folds over the list. The order
  of the list stands for Go's unspecified iteration order and is observed by nothing but
  log lines, so two such values are the same set when \<open>set\<close> maps them to the same set.
\<close>

type_synonym string_set = "string list"

definition put :: "string \<Rightarrow> string_set \<Rightarrow> string_set" where
  "put k m = (if k \<in> set m then m else m @ [k])"

definition has :: "string_set \<Rightarrow> string \<Rightarrow> bool" where
  "has m k = (k \<in> set m)"

text \<open>
  A call returns a value, returns a non-nil \<open>error\<close>, or panics. Errors are values that
  callers test and wrap; a panic unwinds every caller and ends the process.
\<close>

datatype csv_error = ErrBareQuote | ErrQuote | ErrFieldCount

datatype error =
    ErrorString string                   \<comment> \<open>\<open>errors.New\<close>, \<open>fmt.Errorf\<close> without \<open>%w\<close>, and errors of the libraries\<close>
  | WrapError string error               \<comment> \<open>\<open>fmt.Errorf(prefix + "%w", err)\<close>\<close>
  | ParseError csv_error                 \<comment> \<open>\<open>*csv.ParseError\<close>, without its line and column\<close>

datatype panic =
    IndexOutOfRange nat nat              \<comment> \<open>index, length\<close>
  | NilDereference

datatype 'a outcome = Returned 'a | Failed error | Panicked panic

definition index :: "'a list \<Rightarrow> nat \<Rightarrow> 'a outcome" where
  \<comment> \<open>\<open>xs[i]\<close> on a slice\<close>
  "index xs i = (if i < length xs then Returned (xs ! i) else Panicked (IndexOutOfRange i (length xs)))"

section \<open>Configuration\<close>

record cfg =
  RepoOwner :: string
  RepoName :: string
  EventName :: string
  EventPath :: string
  SignersPath :: string
  Token :: string
  GoogleSheetUrl :: string
  CommentMsg :: string
  IgnoreAuthors :: string_set

text \<open>
  \<open>fromEnv\<close> reads the process environment; \<open>os.Getenv\<close> is the function \<open>getenv\<close>,
  which gives the empty string for an unset variable.
\<close>

definition fromEnv :: "(string \<Rightarrow> string) \<Rightarrow> cfg outcome" where
  "fromEnv getenv =
     (let repo = getenv ''GITHUB_REPOSITORY'';
          s = Split repo (CHR ''/'')
      in case index s 0 of
           Panicked p \<Rightarrow> Panicked p
         | Failed e \<Rightarrow> Failed e
         | Returned s0 \<Rightarrow>
        (case index s 1 of
           Panicked p \<Rightarrow> Panicked p
         | Failed e \<Rightarrow> Failed e
         | Returned s1 \<Rightarrow>
        (let c = \<lparr> RepoOwner = s0,
                   RepoName = s1,
                   EventName = getenv ''GITHUB_EVENT_NAME'',
                   EventPath = getenv ''GITHUB_EVENT_PATH'',
                   SignersPath = getenv ''SIGNERS_PATH'',
                   Token = getenv ''GITHUB_TOKEN'',
                   GoogleSheetUrl = getenv ''GOOGLE_SHEET_URL'',
                   CommentMsg = getenv ''COMMENT_MSG'',
                   IgnoreAuthors = [] \<rparr>;
             raw = getenv ''BOT_IGNORE_AUTHORS'';
             raw = (if raw = [] then ''github-actions[bot]'' else raw);
             c = fold (\<lambda>a c. c\<lparr>IgnoreAuthors := put (ToLower (TrimSpace a)) (IgnoreAuthors c)\<rparr>)
                      (Split raw (CHR '','')) c;
             c = (if CommentMsg c = []
                  then c\<lparr>CommentMsg := ''Please sign the CLA and then comment `@cla-bot check` on this PR.''\<rparr>
                  else c)
         in Returned c)))"

section \<open>The CSV reader\<close>

text \<open>
  \<open>csv.NewReader(body).ReadAll()\<close> of package \<open>encoding/csv\<close> with the settings
  \<open>NewReader\<close> gives: comma as separator, no comment character, strict quotes, and
  \<open>FieldsPerRecord = 0\<close>, so that the number of fields of the first record is required
  of every later one. The reader works line by line. \<open>readLine\<close> gives a line with its
  final \<open>\n\<close>, after turning a final \<open>\r\n\<close> into \<open>\n\<close> and dropping a \<open>\r\<close>
  that ends the input; \<open>readRecord\<close> skips empty lines and splits a line into fields; a
  quoted field may run over several lines and holds \<open>""\<close> for a quote.
\<close>

definition lengthNL :: "string \<Rightarrow> nat" where
  "lengthNL b = (if b \<noteq> [] \<and> last b = CHR 0x0A then 1 else 0)"

fun rawLines :: "string \<Rightarrow> string list" where
  "rawLines [] = []"
| "rawLines (c # s) =
     (if c = CHR 0x0A then [c] # rawLines s
      else (case rawLines s of [] \<Rightarrow> [[c]] | l # ls \<Rightarrow> (c # l) # ls))"

definition readLine :: "string \<Rightarrow> string" where
  "readLine raw =
     (let line = (if raw \<noteq> [] \<and> last raw \<noteq> CHR 0x0A \<and> last raw = CHR 0x0D
                  then butlast raw else raw);
          n = length line
      in if 2 \<le> n \<and> line ! (n - 2) = CHR 0x0D \<and> line ! (n - 1) = CHR 0x0A
         then take (n - 2) line @ [CHR 0x0A] else line)"

lemma dropWhile_Cons_shorter: "dropWhile P xs = y # ys \<Longrightarrow> length ys < length xs"
  using length_dropWhile_le [of P xs] by simp

text \<open>
  The arguments: \<open>fpr\<close> is \<open>r.FieldsPerRecord\<close>, \<open>line\<close> what is left of the current
  line, \<open>rest\<close> the lines not yet read, \<open>buf\<close> the bytes of the quoted field so far,
  \<open>dst\<close> the fields of the current record and \<open>records\<close> the records read so far.
  \<open>readRecord\<close> at the end of the input is \<open>io.EOF\<close>, where \<open>ReadAll\<close> returns the
  records.
\<close>

function readRecord :: "nat \<Rightarrow> string list \<Rightarrow> string list list \<Rightarrow> csv_error + string list list"
  and parseField :: "nat \<Rightarrow> string \<Rightarrow> string list \<Rightarrow> string list \<Rightarrow> string list list
                       \<Rightarrow> csv_error + string list list"
  and parseQuoted :: "nat \<Rightarrow> string \<Rightarrow> string list \<Rightarrow> string \<Rightarrow> string list \<Rightarrow> string list list
                       \<Rightarrow> csv_error + string list list"
  and endRecord :: "nat \<Rightarrow> string list \<Rightarrow> string list \<Rightarrow> string list list
                       \<Rightarrow> csv_error + string list list"
where
  "readRecord fpr [] records = Inr records"
| "readRecord fpr (line # rest) records =
     (if length line = lengthNL line then readRecord fpr rest records
      else parseField fpr line rest [] records)"
| "parseField fpr line rest dst records =
     (if line = [] \<or> hd line \<noteq> CHR 0x22 then
        (case dropWhile (\<lambda>c. c \<noteq> CHR '','') line of
           [] \<Rightarrow>
             (let field = take (length line - lengthNL line) line
              in if CHR 0x22 \<in> set field then Inl ErrBareQuote
                 else endRecord fpr (dst @ [field]) rest records)
         | c # line' \<Rightarrow>
             (let field = takeWhile (\<lambda>c. c \<noteq> CHR '','') line
              in if CHR 0x22 \<in> set field then Inl ErrBareQuote
                 else parseField fpr line' rest (dst @ [field]) records))
      else parseQuoted fpr (tl line) rest [] dst records)"
| "parseQuoted fpr line rest buf dst records =
     (case dropWhile (\<lambda>c. c \<noteq> CHR 0x22) line of
        q # line' \<Rightarrow>
          (let buf = buf @ takeWhile (\<lambda>c. c \<noteq> CHR 0x22) line
           in if line' \<noteq> [] \<and> hd line' = CHR 0x22
              then parseQuoted fpr (tl line') rest (buf @ [CHR 0x22]) dst records
              else if line' \<noteq> [] \<and> hd line' = CHR '',''
              then parseField fpr (tl line') rest (dst @ [buf]) records
              else if lengthNL line' = length line'
              then endRecord fpr (dst @ [buf]) rest records
              else Inl ErrQuote)
      | [] \<Rightarrow>
          (if line \<noteq> [] then
             (case rest of
                [] \<Rightarrow> parseQuoted fpr [] [] (buf @ line) dst records
              | l # rest' \<Rightarrow> parseQuoted fpr l rest' (buf @ line) dst records)
           else Inl ErrQuote))"
| "endRecord fpr dst rest records =
     (if 0 < fpr \<and> length dst \<noteq> fpr then Inl ErrFieldCount
      else readRecord (if fpr = 0 then length dst else fpr) rest (records @ [dst]))"
  by pat_completeness auto
termination
  apply (relation "inv_image (less_than <*lex*> less_than)
     (\<lambda>x. case x of
         Inl (Inl (fpr, lines, records)) \<Rightarrow>
           (sum_list (map (\<lambda>l. Suc (length l)) lines), 2::nat)
       | Inl (Inr (fpr, line, rest, dst, records)) \<Rightarrow>
           (Suc (length line) + sum_list (map (\<lambda>l. Suc (length l)) rest), 1)
       | Inr (Inl (fpr, line, rest, buf, dst, records)) \<Rightarrow>
           (Suc (length line) + sum_list (map (\<lambda>l. Suc (length l)) rest), 1)
       | Inr (Inr (fpr, dst, rest, records)) \<Rightarrow>
           (sum_list (map (\<lambda>l. Suc (length l)) rest), 3))")
   apply (auto dest: dropWhile_Cons_shorter)
  done

definition ReadAll :: "string \<Rightarrow> csv_error + string list list" where
  "ReadAll body = readRecord 0 (map readLine (rawLines body)) []"

section \<open>Events, the platform and the file system\<close>

text \<open>
  The structs of the platform client hold pointers, read through getters that give the
  zero value on \<open>nil\<close>. A record holds what the getters the program calls return:
  \<open>User_Login\<close> is \<open>pr.GetUser().GetLogin()\<close>, \<open>Head_SHA\<close> is
  \<open>pr.GetHead().GetSHA()\<close>, \<open>Base_Ref\<close> is \<open>pr.GetBase().GetRef()\<close>. The pull request
  of an event and the issue of a comment event may be \<open>nil\<close>: the getters accept that,
  but \<open>IsPullRequest\<close> has a value receiver, so calling it on a \<open>nil\<close> issue panics.
\<close>

record PullRequest =
  User_Login :: string
  Head_SHA :: string
  Base_Ref :: string
  Number :: int

record PullRequestEvent =
  PullRequest :: "PullRequest option"

record Issue =
  Issue_Number :: int
  Issue_IsPullRequest :: bool

record IssueCommentEvent =
  Comment_User_Login :: string
  Comment_Body :: string
  Issue :: "Issue option"

definition GetLogin :: "PullRequest option \<Rightarrow> string" where
  "GetLogin pr = (case pr of None \<Rightarrow> [] | Some p \<Rightarrow> User_Login p)"

definition GetSHA :: "PullRequest option \<Rightarrow> string" where
  "GetSHA pr = (case pr of None \<Rightarrow> [] | Some p \<Rightarrow> Head_SHA p)"

definition GetRef :: "PullRequest option \<Rightarrow> string" where
  "GetRef pr = (case pr of None \<Rightarrow> [] | Some p \<Rightarrow> Base_Ref p)"

definition GetNumber :: "PullRequest option \<Rightarrow> int" where
  "GetNumber pr = (case pr of None \<Rightarrow> 0 | Some p \<Rightarrow> Number p)"

text \<open>
  A file holds the JSON text of an event or something that is not JSON. The encoding is
  not modelled: a file that holds an event decodes to that event, and \<open>json.Marshal\<close>
  of an event, whose error the program drops, gives such a file. Decoding the other kind
  of event succeeds as well, since unknown keys are skipped, and leaves the absent
  objects \<open>nil\<close>. \<open>parseEvent\<close> is modelled once for each of the two event types it
  is called with; a file that cannot be read is a file that is not there.
\<close>

datatype file_data =
    PullRequestEventJSON PullRequestEvent
  | IssueCommentEventJSON IssueCommentEvent
  | NotJSON

datatype http_result =
    InvalidRequest                       \<comment> \<open>\<open>http.NewRequestWithContext\<close> gives no request\<close>
  | TransportError error                 \<comment> \<open>\<open>Do\<close> returns an error\<close>
  | Response int string string           \<comment> \<open>\<open>StatusCode\<close>, \<open>Status\<close>, the bytes of \<open>Body\<close>\<close>

datatype contents_result =
    ContentsError error                  \<comment> \<open>\<open>GetContents\<close> returns an error\<close>
  | Directory                            \<comment> \<open>the path is a directory: the file is \<open>nil\<close>\<close>
  | FileUndecodable error                \<comment> \<open>\<open>file.GetContent()\<close> returns an error\<close>
  | FileContent string

text \<open>
  What the outside answers in one run. A response of the sheet carries its whole body: a
  read of the body that breaks off is not modelled. The answers to \<open>CreateStatus\<close>
  and \<open>CreateComment\<close> are dropped by the program and are not part of the record.
  The error of \<open>http.NewRequestWithContext\<close> is dropped too: on a URL that does not
  parse the request is \<open>nil\<close> and \<open>Do\<close> panics. When the signer path is a directory
  \<open>GetContents\<close> gives a \<open>nil\<close> file and no error, and \<open>GetContent\<close> panics on
  it.
\<close>

record world =
  http_Do :: "string \<Rightarrow> http_result"
  Repositories_GetContents :: "string \<Rightarrow> string \<Rightarrow> string \<Rightarrow> string \<Rightarrow> contents_result"
  PullRequests_Get :: "string \<Rightarrow> string \<Rightarrow> int \<Rightarrow> error + PullRequest"
  WriteFile_ok :: "string \<Rightarrow> bool"

datatype call =
    HTTP_GET string
  | GetContents string string string string
  | GetPullRequest string string int
  | CreateStatus string string string string string string
      \<comment> \<open>owner, repository, revision, \<open>State\<close>, \<open>Description\<close>, \<open>Context\<close>\<close>
  | CreateComment string string int string

text \<open>The state a run changes: the files, and the outbound calls made so far, in order.\<close>

record state =
  files :: "string \<Rightarrow> file_data option"
  calls :: "call list"

definition called :: "call \<Rightarrow> state \<Rightarrow> state" where
  "called k st = st\<lparr>calls := calls st @ [k]\<rparr>"

definition WriteFile :: "world \<Rightarrow> string \<Rightarrow> file_data \<Rightarrow> state \<Rightarrow> state" where
  \<comment> \<open>the program drops the error of \<open>os.WriteFile\<close>; a write that fails leaves the file as it was\<close>
  "WriteFile w name data st =
     (if WriteFile_ok w name then st\<lparr>files := (files st)(name \<mapsto> data)\<rparr> else st)"

definition parseEvent_PullRequestEvent :: "state \<Rightarrow> string \<Rightarrow> PullRequestEvent outcome" where
  "parseEvent_PullRequestEvent st path =
     (case files st path of
        None \<Rightarrow> Failed (ErrorString ''open: no such file or directory'')
      | Some NotJSON \<Rightarrow> Failed (ErrorString ''invalid character'')
      | Some (PullRequestEventJSON ev) \<Rightarrow> Returned ev
      | Some (IssueCommentEventJSON _) \<Rightarrow> Returned \<lparr>PullRequest = None\<rparr>)"

definition parseEvent_IssueCommentEvent :: "state \<Rightarrow> string \<Rightarrow> IssueCommentEvent outcome" where
  "parseEvent_IssueCommentEvent st path =
     (case files st path of
        None \<Rightarrow> Failed (ErrorString ''open: no such file or directory'')
      | Some NotJSON \<Rightarrow> Failed (ErrorString ''invalid character'')
      | Some (IssueCommentEventJSON ev) \<Rightarrow> Returned ev
      | Some (PullRequestEventJSON _) \<Rightarrow>
          Returned \<lparr>Comment_User_Login = [], Comment_Body = [], Issue = None\<rparr>)"

section \<open>Signer sources\<close>

text \<open>The loop over the rows of the sheet; \<open>i\<close> is the index of the row.\<close>

fun sheetRows :: "nat \<Rightarrow> string list list \<Rightarrow> string_set \<Rightarrow> string_set outcome" where
  "sheetRows i [] signers = Returned signers"
| "sheetRows i (row # rows) signers =
     (if i = 0 then sheetRows (Suc i) rows signers
      else if length row = 0 then sheetRows (Suc i) rows signers
      else (case index row 1 of
              Panicked p \<Rightarrow> Panicked p
            | Failed e \<Rightarrow> Failed e
            | Returned col \<Rightarrow>
                (let login = ToLower (TrimSpace col)
                 in sheetRows (Suc i) rows (if login \<noteq> [] then put login signers else signers))))"

definition loadSignersFromGoogleSheet :: "world \<Rightarrow> string \<Rightarrow> state \<Rightarrow> string_set outcome \<times> state" where
  "loadSignersFromGoogleSheet w csvURL st =
     (if csvURL = [] then (Failed (ErrorString ''csv url not provided''), st)
      else (case http_Do w csvURL of
              InvalidRequest \<Rightarrow> (Panicked NilDereference, st)
            | TransportError err \<Rightarrow> (Failed err, called (HTTP_GET csvURL) st)
            | Response StatusCode Status Body \<Rightarrow>
                (let st = called (HTTP_GET csvURL) st
                 in if StatusCode \<noteq> 200
                    then (Failed (ErrorString (''google sheets returned '' @ Status)), st)
                    else (case ReadAll Body of
                            Inl err \<Rightarrow> (Failed (ParseError err), st)
                          | Inr rows \<Rightarrow> (sheetRows 0 rows [], st)))))"

definition signerLine :: "string \<Rightarrow> string_set \<Rightarrow> string_set" where
  \<comment> \<open>the body of the loop over the lines of the signer file\<close>
  "signerLine line0 set0 =
     (let line = TrimSpace line0
      in if line \<noteq> [] \<and> \<not> HasPrefix line ''#'' then put (ToLower line) set0 else set0)"

definition loadSignersGithub :: "world \<Rightarrow> cfg \<Rightarrow> string \<Rightarrow> state \<Rightarrow> string_set outcome \<times> state" where
  "loadSignersGithub w c ref st =
     (let st = called (GetContents (RepoOwner c) (RepoName c) (SignersPath c) ref) st
      in case Repositories_GetContents w (RepoOwner c) (RepoName c) (SignersPath c) ref of
           ContentsError err \<Rightarrow> (Failed err, st)
         | Directory \<Rightarrow> (Panicked NilDereference, st)
         | FileUndecodable err \<Rightarrow> (Failed err, st)
         | FileContent s \<Rightarrow> (Returned (fold signerLine (Split s (CHR 0x0A)) []), st))"

definition loadSigners :: "world \<Rightarrow> cfg \<Rightarrow> string \<Rightarrow> state \<Rightarrow> string_set outcome \<times> state" where
  "loadSigners w c ref st =
     (let merged = []
      in case (if GoogleSheetUrl c \<noteq> []
               then (case loadSignersFromGoogleSheet w (GoogleSheetUrl c) st of
                       (Failed err, st) \<Rightarrow> (Failed (WrapError ''sheet: '' err), st)
                     | (Panicked p, st) \<Rightarrow> (Panicked p, st)
                     | (Returned m, st) \<Rightarrow> (Returned (fold put m merged), st))
               else (Returned merged, st)) of
           (Failed err, st) \<Rightarrow> (Failed err, st)
         | (Panicked p, st) \<Rightarrow> (Panicked p, st)
         | (Returned merged, st) \<Rightarrow>
             (if SignersPath c \<noteq> []
              then (case loadSignersGithub w c ref st of
                      (Failed err, st) \<Rightarrow> (Failed (WrapError ''repo file: '' err), st)
                    | (Panicked p, st) \<Rightarrow> (Panicked p, st)
                    | (Returned m, st) \<Rightarrow> (Returned (fold put m merged), st))
              else (Returned merged, st)))"

section \<open>Handlers\<close>

definition postStatus :: "cfg \<Rightarrow> string \<Rightarrow> string \<Rightarrow> string \<Rightarrow> state \<Rightarrow> state" where
  "postStatus c sha state description st =
     called (CreateStatus (RepoOwner c) (RepoName c) sha state description ''CLA check'') st"

definition postComment :: "cfg \<Rightarrow> int \<Rightarrow> string \<Rightarrow> state \<Rightarrow> state" where
  "postComment c prNumber body st =
     called (CreateComment (RepoOwner c) (RepoName c) prNumber body) st"

definition signed_description :: string where
  \<comment> \<open>\<open>"CLA signed "\<close> and the UTF-8 bytes of U+2714 U+FE0F\<close>
  "signed_description = ''CLA signed '' @ [CHR 0xE2, CHR 0x9C, CHR 0x94, CHR 0xEF, CHR 0xB8, CHR 0x8F]"

definition not_signed_description :: string where
  \<comment> \<open>\<open>"CLA not signed "\<close> and the UTF-8 bytes of U+274C\<close>
  "not_signed_description = ''CLA not signed '' @ [CHR 0xE2, CHR 0x9D, CHR 0x8C]"

definition handlePullRequest :: "world \<Rightarrow> cfg \<Rightarrow> state \<Rightarrow> unit outcome \<times> state" where
  "handlePullRequest w c st =
     (case parseEvent_PullRequestEvent st (EventPath c) of
        Failed err \<Rightarrow> (Failed err, st)
      | Panicked p \<Rightarrow> (Panicked p, st)
      | Returned ev \<Rightarrow>
          (let pr = PullRequest ev;
               author = ToLower (GetLogin pr);
               sha = GetSHA pr
           in case loadSigners w c (GetRef pr) st of
                (Failed err, st) \<Rightarrow> (Failed err, st)
              | (Panicked p, st) \<Rightarrow> (Panicked p, st)
              | (Returned signers, st) \<Rightarrow>
                  (if has signers author
                   then (Returned (), postStatus c sha ''success'' signed_description st)
                   else (let st = postStatus c sha ''failure'' not_signed_description st;
                             msg = ''@'' @ author @ '' '' @ CommentMsg c
                         in (Returned (), postComment c (GetNumber pr) msg st)))))"

definition handleIssueComment :: "world \<Rightarrow> cfg \<Rightarrow> state \<Rightarrow> unit outcome \<times> state" where
  "handleIssueComment w c st =
     (case parseEvent_IssueCommentEvent st (EventPath c) of
        Failed err \<Rightarrow> (Failed err, st)
      | Panicked p \<Rightarrow> (Panicked p, st)
      | Returned ev \<Rightarrow>
          (let author = ToLower (Comment_User_Login ev)
           in if has (IgnoreAuthors c) author then (Returned (), st)
              else (case Issue ev of
                      None \<Rightarrow> (Panicked NilDereference, st)
                    | Some issue \<Rightarrow>
                        (if Issue_IsPullRequest issue = False then (Returned (), st)
                         else (let body = ToLower (Comment_Body ev)
                               in if \<not> Contains body ''@cla-bot'' \<and> \<not> Contains body ''cla-bot check''
                                  then (Returned (), st)
                                  else (let prNum = Issue_Number issue;
                                            st = called (GetPullRequest (RepoOwner c) (RepoName c) prNum) st
                                        in case PullRequests_Get w (RepoOwner c) (RepoName c) prNum of
                                             Inl err \<Rightarrow> (Failed err, st)
                                           | Inr pr \<Rightarrow>
                                               (let pre = \<lparr>PullRequest = Some pr\<rparr>;
                                                    tmpFile = ''/tmp/pr_event.json'';
                                                    st = WriteFile w tmpFile (PullRequestEventJSON pre) st;
                                                    subCfg = c\<lparr>EventName := ''pull_request'', EventPath := tmpFile\<rparr>
                                                in handlePullRequest w subCfg st)))))))"

section \<open>What a run posts\<close>

text \<open>
  The calls that write to the platform are \<open>CreateStatus\<close> and \<open>CreateComment\<close>;
  \<open>posted\<close> is the part of the call log that holds them.
\<close>

fun is_post :: "call \<Rightarrow> bool" where
  "is_post (CreateStatus owner repo sha state description context) = True"
| "is_post (CreateComment owner repo number body) = True"
| "is_post other = False"

definition posted :: "state \<Rightarrow> call list" where
  "posted st = filter is_post (calls st)"

text \<open>
  An outside where nothing answers, and the state of a fresh run; the examples below
  change them where needed.
\<close>

definition quiet_world :: world where
  "quiet_world =
     \<lparr> http_Do = (\<lambda>url. TransportError (ErrorString ''no such host'')),
       Repositories_GetContents = (\<lambda>owner repo path ref. ContentsError (ErrorString ''404 Not Found'')),
       PullRequests_Get = (\<lambda>owner repo number. Inl (ErrorString ''404 Not Found'')),
       WriteFile_ok = (\<lambda>name. True) \<rparr>"

definition start :: state where
  "start = \<lparr> files = (\<lambda>name. None), calls = [] \<rparr>"

text \<open>
  A configuration with both signer sources, an outside where both answer, a pull request
  opened by \<open>Alice\<close>, and a run whose event file holds that pull request.
\<close>

definition both_sources :: cfg where
  "both_sources =
     \<lparr> RepoOwner = ''prequel-dev'', RepoName = ''clabot'', EventName = ''pull_request'',
       EventPath = ''event.json'', SignersPath = ''cla-signers.txt'', Token = ''t'',
       GoogleSheetUrl = ''https://docs.google.com/sheet.csv'', CommentMsg = ''Please sign the CLA.'',
       IgnoreAuthors = [''github-actions[bot]''] \<rparr>"

definition sheet_and_file :: world where
  "sheet_and_file = quiet_world
     \<lparr> http_Do := \<lambda>url. Response 200 ''200 OK'' ''name,login\<newline>Ann,A\<newline>Ben,B'',
       Repositories_GetContents := \<lambda>owner repo path ref. FileContent ''b\<newline>c\<newline>'' \<rparr>"

definition alice_pr :: PullRequest where
  "alice_pr = \<lparr> User_Login = ''Alice'', Head_SHA = ''c0ffee'', Base_Ref = ''main'', Number = 7 \<rparr>"

definition pr_run :: state where
  "pr_run = start\<lparr>files := (\<lambda>name. if name = ''event.json''
               then Some (PullRequestEventJSON \<lparr>PullRequest = Some alice_pr\<rparr>) else None)\<rparr>"

text \<open>
  The same configuration with the signer file as its only source, an outside whose signer
  file has a given content, a run whose event file holds a comment event, a pull request
  whose author's login has a space on each side, and an outside that also knows pull
  request 7 and where writing files may fail.
\<close>

definition file_only :: cfg where
  "file_only = both_sources\<lparr>GoogleSheetUrl := []\<rparr>"

definition signers_file :: "string \<Rightarrow> world" where
  "signers_file s = quiet_world\<lparr>Repositories_GetContents := \<lambda>owner repo path ref. FileContent s\<rparr>"

definition comment_run :: "IssueCommentEvent \<Rightarrow> state" where
  "comment_run ev = start\<lparr>files := (\<lambda>name. if name = ''event.json''
               then Some (IssueCommentEventJSON ev) else None)\<rparr>"

definition spaced_pr :: PullRequest where
  "spaced_pr = \<lparr> User_Login = '' Alice '', Head_SHA = ''c0ffee'', Base_Ref = ''main'', Number = 7 \<rparr>"

definition spaced_run :: state where
  "spaced_run = start\<lparr>files := (\<lambda>name. if name = ''event.json''
               then Some (PullRequestEventJSON \<lparr>PullRequest = Some spaced_pr\<rparr>) else None)\<rparr>"

definition check_comment :: IssueCommentEvent where
  "check_comment = \<lparr> Comment_User_Login = ''Alice'', Comment_Body = ''@cla-bot check'',
                      Issue = Some \<lparr>Issue_Number = 7, Issue_IsPullRequest = True\<rparr> \<rparr>"

definition platform :: "string \<Rightarrow> bool \<Rightarrow> world" where
  "platform s writable = quiet_world
     \<lparr> Repositories_GetContents := \<lambda>owner repo path ref. FileContent s,
       PullRequests_Get := \<lambda>owner repo number. if number = 7 then Inr alice_pr else Inl (ErrorString ''404 Not Found''),
       WriteFile_ok := \<lambda>name. writable \<rparr>"

section \<open>Properties of the string functions\<close>

lemma Split_not_Nil: "Split s sep \<noteq> []"
  by (cases s) (auto split: list.splits)

lemma Split_length: "length (Split s sep) = Suc (count_list s sep)"
  by (induction s) (auto split: list.splits)

lemma Split_two_fields: "2 \<le> length (Split s sep) \<longleftrightarrow> sep \<in> set s"
proof -
  have "0 < count_list s sep \<longleftrightarrow> sep \<in> set s"
    using count_list_0_iff [of s sep] by auto
  then show ?thesis
    by (simp add: Split_length Suc_le_eq numeral_2_eq_2)
qed

section \<open>Properties of the CSV reader\<close>

text \<open>
  Every record that \<open>ReadAll\<close> returns has the same number of fields, and at least
  one: the first record fixes \<open>FieldsPerRecord\<close> and a later record with another number
  of fields is an error. \<open>counted\<close> is the invariant of the records read so far,
  \<open>uniform\<close> the property of the result.
\<close>

definition counted :: "nat \<Rightarrow> string list list \<Rightarrow> bool" where
  "counted fpr records = (if fpr = 0 then records = [] else (\<forall>r\<in>set records. length r = fpr))"

definition uniform :: "string list list \<Rightarrow> bool" where
  "uniform rows = (\<exists>n. 0 < n \<and> (\<forall>r\<in>set rows. length r = n))"

lemma csv_uniform:
  "(counted fpr records \<longrightarrow> readRecord fpr lines records = Inr rows \<longrightarrow> uniform rows)"
  "(counted fpr records \<longrightarrow> parseField fpr line rest dst records = Inr rows \<longrightarrow> uniform rows)"
  "(counted fpr records \<longrightarrow> parseQuoted fpr line rest buf dst records = Inr rows \<longrightarrow> uniform rows)"
  "(counted fpr records \<longrightarrow> dst \<noteq> [] \<longrightarrow> endRecord fpr dst rest records = Inr rows \<longrightarrow> uniform rows)"
proof (induction fpr lines records and fpr line rest dst records and fpr line rest buf dst records
         and fpr dst rest records
       rule: readRecord_parseField_parseQuoted_endRecord.induct)
  case (1 fpr records)
  show ?case
    by (auto simp: counted_def uniform_def split: if_splits)
next
  case (2 fpr line rest records)
  then show ?case
    by (simp del: parseField.simps split: if_splits)
next
  case (3 fpr line rest dst records)
  note unfold = parseField.simps [of fpr line rest dst records]
  show ?case
  proof (intro impI)
    assume c: "counted fpr records" and r: "parseField fpr line rest dst records = Inr rows"
    show "uniform rows"
    proof (cases "line = [] \<or> hd line \<noteq> CHR 0x22")
      case True
      show ?thesis
      proof (cases "dropWhile (\<lambda>c. c \<noteq> CHR '','') line")
        case Nil
        let ?f = "take (length line - lengthNL line) line"
        from r have "(if CHR 0x22 \<in> set ?f then Inl ErrBareQuote
            else endRecord fpr (dst @ [?f]) rest records) = Inr rows"
          unfolding unfold using True Nil by (simp add: Let_def del: readRecord.simps parseField.simps parseQuoted.simps endRecord.simps)
        then have q: "CHR 0x22 \<notin> set ?f" and e: "endRecord fpr (dst @ [?f]) rest records = Inr rows"
          by (simp_all del: endRecord.simps split: if_splits)
        from "3.IH"(1) [OF True Nil refl q] c e show ?thesis by (simp add: Let_def del: readRecord.simps parseField.simps parseQuoted.simps endRecord.simps)
      next
        case (Cons a line')
        let ?f = "takeWhile (\<lambda>c. c \<noteq> CHR '','') line"
        from r have "(if CHR 0x22 \<in> set ?f then Inl ErrBareQuote
            else parseField fpr line' rest (dst @ [?f]) records) = Inr rows"
          unfolding unfold using True Cons by (simp add: Let_def del: readRecord.simps parseField.simps parseQuoted.simps endRecord.simps)
        then have q: "CHR 0x22 \<notin> set ?f" and e: "parseField fpr line' rest (dst @ [?f]) records = Inr rows"
          by (simp_all del: parseField.simps split: if_splits)
        from "3.IH"(2) [OF True Cons refl q] c e show ?thesis by (simp add: Let_def del: readRecord.simps parseField.simps parseQuoted.simps endRecord.simps)
      qed
    next
      case False
      from r have "parseQuoted fpr (tl line) rest [] dst records = Inr rows"
        unfolding unfold using False by (simp add: Let_def del: readRecord.simps parseField.simps parseQuoted.simps endRecord.simps)
      with "3.IH"(3) [OF False] c show ?thesis by (simp add: Let_def del: readRecord.simps parseField.simps parseQuoted.simps endRecord.simps)
    qed
  qed
next
  case (4 fpr line rest buf dst records)
  note unfold = parseQuoted.simps [of fpr line rest buf dst records]
  show ?case
  proof (intro impI)
    assume c: "counted fpr records" and r: "parseQuoted fpr line rest buf dst records = Inr rows"
    show "uniform rows"
    proof (cases "dropWhile (\<lambda>c. c \<noteq> CHR 0x22) line")
      case Nil
      show ?thesis
      proof (cases "line = []")
        case True
        from r have "(Inl ErrQuote :: csv_error + string list list) = Inr rows"
          unfolding unfold using Nil True by (simp add: Let_def del: readRecord.simps parseField.simps parseQuoted.simps endRecord.simps)
        then show ?thesis by simp
      next
        case False
        show ?thesis
        proof (cases rest)
          case Nil': Nil
          from r have "parseQuoted fpr [] [] (buf @ line) dst records = Inr rows"
            unfolding unfold using Nil False Nil' by (simp add: Let_def del: readRecord.simps parseField.simps parseQuoted.simps endRecord.simps)
          with "4.IH"(1) [OF Nil False Nil'] c show ?thesis by (simp add: Let_def del: readRecord.simps parseField.simps parseQuoted.simps endRecord.simps)
        next
          case (Cons l rest')
          from r have "parseQuoted fpr l rest' (buf @ line) dst records = Inr rows"
            unfolding unfold using Nil False Cons by (simp add: Let_def del: readRecord.simps parseField.simps parseQuoted.simps endRecord.simps)
          with "4.IH"(2) [OF Nil False Cons] c show ?thesis by (simp add: Let_def del: readRecord.simps parseField.simps parseQuoted.simps endRecord.simps)
        qed
      qed
    next
      case (Cons q line')
      let ?buf = "buf @ takeWhile (\<lambda>c. c \<noteq> CHR 0x22) line"
      from r have r': "(if line' \<noteq> [] \<and> hd line' = CHR 0x22
              then parseQuoted fpr (tl line') rest (?buf @ [CHR 0x22]) dst records
              else if line' \<noteq> [] \<and> hd line' = CHR '',''
              then parseField fpr (tl line') rest (dst @ [?buf]) records
              else if lengthNL line' = length line'
              then endRecord fpr (dst @ [?buf]) rest records
              else Inl ErrQuote) = Inr rows"
        unfolding unfold using Cons by (simp add: Let_def del: readRecord.simps parseField.simps parseQuoted.simps endRecord.simps)
      consider (quote) "line' \<noteq> [] \<and> hd line' = CHR 0x22"
        | (comma) "\<not> (line' \<noteq> [] \<and> hd line' = CHR 0x22)" "line' \<noteq> [] \<and> hd line' = CHR '',''"
        | (eol) "\<not> (line' \<noteq> [] \<and> hd line' = CHR 0x22)" "\<not> (line' \<noteq> [] \<and> hd line' = CHR '','')"
            "lengthNL line' = length line'"
        | (bad) "\<not> (line' \<noteq> [] \<and> hd line' = CHR 0x22)" "\<not> (line' \<noteq> [] \<and> hd line' = CHR '','')"
            "lengthNL line' \<noteq> length line'"
        by blast
      then show ?thesis
      proof cases
        case quote
        with r' have "parseQuoted fpr (tl line') rest (?buf @ [CHR 0x22]) dst records = Inr rows"
          by (simp add: Let_def del: readRecord.simps parseField.simps parseQuoted.simps endRecord.simps)
        with "4.IH"(3) [OF Cons refl quote] c show ?thesis by (simp add: Let_def del: readRecord.simps parseField.simps parseQuoted.simps endRecord.simps)
      next
        case comma
        with r' have "parseField fpr (tl line') rest (dst @ [?buf]) records = Inr rows"
          by (simp add: Let_def del: readRecord.simps parseField.simps parseQuoted.simps endRecord.simps)
        with "4.IH"(4) [OF Cons refl comma] c show ?thesis by (simp add: Let_def del: readRecord.simps parseField.simps parseQuoted.simps endRecord.simps)
      next
        case eol
        with r' have "endRecord fpr (dst @ [?buf]) rest records = Inr rows"
          by (simp add: Let_def del: readRecord.simps parseField.simps parseQuoted.simps endRecord.simps)
        with "4.IH"(5) [OF Cons refl eol] c show ?thesis by (simp add: Let_def del: readRecord.simps parseField.simps parseQuoted.simps endRecord.simps)
      next
        case bad
        with r' show ?thesis by (simp add: Let_def del: readRecord.simps parseField.simps parseQuoted.simps endRecord.simps)
      qed
    qed
  qed
next
  case (5 fpr dst rest records)
  show ?case
  proof (intro impI)
    assume c: "counted fpr records" and d: "dst \<noteq> []" and r: "endRecord fpr dst rest records = Inr rows"
    from r have ok: "\<not> (0 < fpr \<and> length dst \<noteq> fpr)"
      by (auto split: if_splits)
    with r have run: "readRecord (if fpr = 0 then length dst else fpr) rest (records @ [dst]) = Inr rows"
      by simp
    from c d ok have "counted (if fpr = 0 then length dst else fpr) (records @ [dst])"
      by (auto simp: counted_def)
    with "5.IH" [OF ok] run show "uniform rows" by simp
  qed
qed

lemma ReadAll_uniform:
  assumes "ReadAll body = Inr rows"
  shows "\<exists>n. 0 < n \<and> (\<forall>row\<in>set rows. length row = n)"
  using csv_uniform(1) [of 0 "[]" "map readLine (rawLines body)" rows] assms
  by (simp add: ReadAll_def counted_def uniform_def)

section \<open>Properties of the signer sets\<close>

lemma set_put: "set (put k m) = insert k (set m)"
  by (auto simp: put_def)

lemma set_fold_put: "set (fold put m merged) = set merged \<union> set m"
  by (induction m arbitrary: merged) (auto simp: set_put)

lemma signerLines_set:
  "set (fold signerLine lines acc) = set acc \<union>
     {ToLower (TrimSpace line) | line.
        line \<in> set lines \<and> TrimSpace line \<noteq> [] \<and> \<not> HasPrefix (TrimSpace line) ''#''}"
  by (induction lines arbitrary: acc) (auto simp: signerLine_def Let_def set_put)

text \<open>
  The loop over the rows, after the header: a row without columns is skipped, a row with
  two columns or more gives its second column, unless that is blank, and the first row
  with exactly one column panics.
\<close>

lemma sheetRows_set:
  "0 < i \<Longrightarrow> sheetRows i rows signers = Returned result \<Longrightarrow>
   set result = set signers \<union>
     {ToLower (TrimSpace (row ! 1)) | row.
        row \<in> set rows \<and> row \<noteq> [] \<and> ToLower (TrimSpace (row ! 1)) \<noteq> []}"
proof (induction rows arbitrary: i signers)
  case Nil
  then show ?case by simp
next
  case (Cons row rows)
  show ?case
  proof (cases "row = []")
    case True
    with Cons.prems have "sheetRows (Suc i) rows signers = Returned result" by simp
    with Cons.IH [of "Suc i" signers] True show ?thesis by auto
  next
    case False
    with Cons.prems have len: "1 < length row"
      by (auto simp: index_def split: if_splits)
    let ?login = "ToLower (TrimSpace (row ! 1))"
    from Cons.prems False len
    have "sheetRows (Suc i) rows (if ?login \<noteq> [] then put ?login signers else signers) = Returned result"
      by (auto simp: index_def Let_def split: if_splits)
    from Cons.IH [OF _ this] False show ?thesis
      by (auto simp: set_put)
  qed
qed

lemma sheetRows_panics:
  "0 < i \<Longrightarrow> \<exists>row\<in>set rows. length row = 1 \<Longrightarrow>
   sheetRows i rows signers = Panicked (IndexOutOfRange 1 1)"
proof (induction rows arbitrary: i signers)
  case Nil
  then show ?case by simp
next
  case (Cons row rows)
  show ?case
  proof (cases "length row = 1")
    case True
    with Cons.prems show ?thesis by (simp add: index_def)
  next
    case False
    with Cons.prems have later: "\<exists>row\<in>set rows. length row = 1" by auto
    have step: "\<And>s. sheetRows (Suc i) rows s = Panicked (IndexOutOfRange 1 1)"
      using Cons.IH [OF _ later] by simp
    from False have "length row = 0 \<or> 1 < length row" by arith
    with Cons.prems show ?thesis
      by (auto simp: index_def Let_def step)
  qed
qed

lemma sheetRows_returns:
  "\<forall>row\<in>set rows. length row \<noteq> 1 \<Longrightarrow> \<exists>result. sheetRows i rows signers = Returned result"
proof (induction rows arbitrary: i signers)
  case Nil
  then show ?case by simp
next
  case (Cons row rows)
  then have "length row \<noteq> 1" by simp
  then have "length row = 0 \<or> 1 < length row" by arith
  with Cons show ?case by (auto simp: index_def Let_def)
qed

text \<open>Membership in the two sets, as the lookup \<open>has\<close> sees it.\<close>

lemma signerLines_has: "has (fold signerLine lines []) x \<longleftrightarrow>
      (\<exists>line\<in>set lines.
          TrimSpace line \<noteq> [] \<and> \<not> HasPrefix (TrimSpace line) ''#''
          \<and> ToLower (TrimSpace line) = x)"
proof -
  have "has (fold signerLine lines []) x \<longleftrightarrow>
      (\<exists>line. x = ToLower (TrimSpace line) \<and> line \<in> set lines
          \<and> TrimSpace line \<noteq> [] \<and> \<not> HasPrefix (TrimSpace line) ''#'')"
    by (simp add: has_def signerLines_set)
  also have "\<dots> \<longleftrightarrow> (\<exists>line\<in>set lines.
          TrimSpace line \<noteq> [] \<and> \<not> HasPrefix (TrimSpace line) ''#''
          \<and> ToLower (TrimSpace line) = x)"
    by (simp only: Bex_def) (rule iffI; elim exE conjE; intro exI conjI; (assumption | rule sym))
  finally show ?thesis .
qed

lemma sheetRows_has:
  assumes "set signers = {ToLower (TrimSpace (row ! 1)) | row.
      row \<in> set rest \<and> row \<noteq> [] \<and> ToLower (TrimSpace (row ! 1)) \<noteq> []}"
  shows "has signers x \<longleftrightarrow>
             (\<exists>row\<in>set rest. row \<noteq> [] \<and> ToLower (TrimSpace (row ! 1)) \<noteq> []
                 \<and> ToLower (TrimSpace (row ! 1)) = x)"
proof -
  have "has signers x \<longleftrightarrow>
      (\<exists>row. x = ToLower (TrimSpace (row ! 1))
         \<and> row \<in> set rest \<and> row \<noteq> [] \<and> ToLower (TrimSpace (row ! 1)) \<noteq> [])"
    by (simp only: has_def assms mem_Collect_eq)
  also have "\<dots> \<longleftrightarrow> (\<exists>row\<in>set rest. row \<noteq> [] \<and> ToLower (TrimSpace (row ! 1)) \<noteq> []
                 \<and> ToLower (TrimSpace (row ! 1)) = x)"
    by (simp only: Bex_def) (rule iffI; elim exE conjE; intro exI conjI; (assumption | rule sym))
  finally show ?thesis .
qed

section \<open>What the loaders do to the state\<close>

text \<open>
  A loader reads the outside and adds to the call log; its outcome and the calls it adds
  do not depend on the state it starts from, nor on the event fields of the
  configuration, and none of the calls it adds is a post.
\<close>

lemma sheet_effect:
  "\<exists>r k. (\<forall>st. loadSignersFromGoogleSheet w csvURL st = (r, st\<lparr>calls := calls st @ k\<rparr>))
         \<and> filter is_post k = []"
proof (cases "csvURL = []")
  case True
  then have "\<forall>st. loadSignersFromGoogleSheet w csvURL st
      = (Failed (ErrorString ''csv url not provided''), st\<lparr>calls := calls st @ []\<rparr>)"
    by (simp add: loadSignersFromGoogleSheet_def)
  then show ?thesis by (intro exI [of _ "[]"] exI conjI) auto
next
  case False
  show ?thesis
  proof (cases "http_Do w csvURL")
    case InvalidRequest
    with False have "\<forall>st. loadSignersFromGoogleSheet w csvURL st
        = (Panicked NilDereference, st\<lparr>calls := calls st @ []\<rparr>)"
      by (simp add: loadSignersFromGoogleSheet_def)
    then show ?thesis by (intro exI [of _ "[]"] exI conjI) auto
  next
    case (TransportError err)
    with False have "\<forall>st. loadSignersFromGoogleSheet w csvURL st
        = (Failed err, st\<lparr>calls := calls st @ [HTTP_GET csvURL]\<rparr>)"
      by (simp add: loadSignersFromGoogleSheet_def called_def)
    then show ?thesis by (intro exI [of _ "[HTTP_GET csvURL]"] exI conjI) auto
  next
    case (Response StatusCode Status Body)
    with False have "\<forall>st. loadSignersFromGoogleSheet w csvURL st
        = (if StatusCode \<noteq> 200 then Failed (ErrorString (''google sheets returned '' @ Status))
           else (case ReadAll Body of Inl err \<Rightarrow> Failed (ParseError err)
                 | Inr rows \<Rightarrow> sheetRows 0 rows []),
           st\<lparr>calls := calls st @ [HTTP_GET csvURL]\<rparr>)"
      by (simp add: loadSignersFromGoogleSheet_def called_def Let_def split: sum.splits)
    then show ?thesis by (intro exI [of _ "[HTTP_GET csvURL]"] exI conjI) auto
  qed
qed

lemma github_effect:
  "\<exists>r k. (\<forall>st a b. loadSignersGithub w (c\<lparr>EventName := a, EventPath := b\<rparr>) ref st = (r, st\<lparr>calls := calls st @ k\<rparr>))
         \<and> filter is_post k = []"
proof -
  let ?k = "[GetContents (RepoOwner c) (RepoName c) (SignersPath c) ref]"
  have "\<forall>st a b. loadSignersGithub w (c\<lparr>EventName := a, EventPath := b\<rparr>) ref st
      = (case Repositories_GetContents w (RepoOwner c) (RepoName c) (SignersPath c) ref of
           ContentsError err \<Rightarrow> Failed err
         | Directory \<Rightarrow> Panicked NilDereference
         | FileUndecodable err \<Rightarrow> Failed err
         | FileContent s \<Rightarrow> Returned (fold signerLine (Split s (CHR 0x0A)) []),
         st\<lparr>calls := calls st @ ?k\<rparr>)"
    by (simp add: loadSignersGithub_def called_def Let_def split: contents_result.splits)
  then show ?thesis by (intro exI [of _ ?k] exI conjI) auto
qed

lemma loadSigners_effect:
  "\<exists>r k. (\<forall>st a b. loadSigners w (c\<lparr>EventName := a, EventPath := b\<rparr>) ref st = (r, st\<lparr>calls := calls st @ k\<rparr>))
         \<and> filter is_post k = []"
proof -
  obtain r1 k1 where
    sheet: "\<And>st. loadSignersFromGoogleSheet w (GoogleSheetUrl c) st = (r1, st\<lparr>calls := calls st @ k1\<rparr>)"
    and k1: "filter is_post k1 = []"
    using sheet_effect [of w "GoogleSheetUrl c"] by blast
  obtain r2 k2 where
    repo: "\<And>st a b. loadSignersGithub w (c\<lparr>EventName := a, EventPath := b\<rparr>) ref st = (r2, st\<lparr>calls := calls st @ k2\<rparr>)"
    and k2: "filter is_post k2 = []"
    using github_effect [of w c ref] by blast
  let ?first = "if GoogleSheetUrl c \<noteq> []
      then (case r1 of Failed err \<Rightarrow> Failed (WrapError ''sheet: '' err) | Panicked p \<Rightarrow> Panicked p
            | Returned m \<Rightarrow> Returned (fold put m []), k1)
      else (Returned [], [])"
  let ?r = "case fst ?first of Failed err \<Rightarrow> Failed err | Panicked p \<Rightarrow> Panicked p
      | Returned merged \<Rightarrow>
          (if SignersPath c \<noteq> []
           then (case r2 of Failed err \<Rightarrow> Failed (WrapError ''repo file: '' err) | Panicked p \<Rightarrow> Panicked p
                 | Returned m \<Rightarrow> Returned (fold put m merged))
           else Returned merged)"
  let ?k = "case fst ?first of Returned merged \<Rightarrow> (if SignersPath c \<noteq> [] then snd ?first @ k2 else snd ?first)
      | _ \<Rightarrow> snd ?first"
  have "\<forall>st a b. loadSigners w (c\<lparr>EventName := a, EventPath := b\<rparr>) ref st = (?r, st\<lparr>calls := calls st @ ?k\<rparr>)"
    by (simp add: loadSigners_def sheet repo split: outcome.splits)
  moreover have "filter is_post ?k = []"
    using k1 k2 by (simp split: outcome.splits)
  ultimately show ?thesis by blast
qed

lemma loadSigners_posted: "posted (snd (loadSigners w c ref st)) = posted st"
proof -
  obtain r k where "\<And>st a b. loadSigners w (c\<lparr>EventName := a, EventPath := b\<rparr>) ref st = (r, st\<lparr>calls := calls st @ k\<rparr>)"
    and "filter is_post k = []"
    using loadSigners_effect [of w c ref] by blast
  from this(1) [where a = "EventName c" and b = "EventPath c" and st = st] this(2) show ?thesis
    by (simp add: posted_def)
qed

lemma loadSigners_files: "files (snd (loadSigners w c ref st)) = files st"
proof -
  obtain r k where "\<And>st a b. loadSigners w (c\<lparr>EventName := a, EventPath := b\<rparr>) ref st = (r, st\<lparr>calls := calls st @ k\<rparr>)"
    using loadSigners_effect [of w c ref] by blast
  from this [where a = "EventName c" and b = "EventPath c" and st = st] show ?thesis by simp
qed



lemma github_outcome_any_state:
  "fst (loadSignersGithub w c ref st) = fst (loadSignersGithub w c ref st')"
  by (simp add: loadSignersGithub_def Let_def split: contents_result.splits)

lemma loadSigners_outcome:
  "fst (loadSigners w c ref st) =
     (case (if GoogleSheetUrl c \<noteq> []
            then (case fst (loadSignersFromGoogleSheet w (GoogleSheetUrl c) st) of
                    Failed err \<Rightarrow> Failed (WrapError ''sheet: '' err)
                  | Panicked p \<Rightarrow> Panicked p
                  | Returned m \<Rightarrow> Returned (fold put m []))
            else Returned []) of
        Failed err \<Rightarrow> Failed err
      | Panicked p \<Rightarrow> Panicked p
      | Returned merged \<Rightarrow>
          (if SignersPath c \<noteq> []
           then (case fst (loadSignersGithub w c ref st) of
                   Failed err \<Rightarrow> Failed (WrapError ''repo file: '' err)
                 | Panicked p \<Rightarrow> Panicked p
                 | Returned m \<Rightarrow> Returned (fold put m merged))
           else Returned merged))"
proof -
  obtain r1 st1 where sheet: "loadSignersFromGoogleSheet w (GoogleSheetUrl c) st = (r1, st1)"
    by (cases "loadSignersFromGoogleSheet w (GoogleSheetUrl c) st")
  obtain r2 st2 where repo: "loadSignersGithub w c ref st = (r2, st2)"
    by (cases "loadSignersGithub w c ref st")
  have repo': "\<And>st'. \<exists>st2'. loadSignersGithub w c ref st' = (r2, st2')"
  proof -
    fix st'
    have "fst (loadSignersGithub w c ref st') = r2"
      using github_outcome_any_state [of w c ref st' st] repo by simp
    then show "\<exists>st2'. loadSignersGithub w c ref st' = (r2, st2')"
      by (cases "loadSignersGithub w c ref st'") simp
  qed
  obtain st2a where a: "loadSignersGithub w c ref st1 = (r2, st2a)"
    using repo' by blast
  show ?thesis
    by (cases r1; cases r2) (simp_all add: loadSigners_def sheet repo a)
qed

lemma handlePullRequest_cases:
  assumes "parseEvent_PullRequestEvent st (EventPath c) = Returned ev"
    and "loadSigners w c (GetRef (PullRequest ev)) st = (r, st1)"
  shows "handlePullRequest w c st =
     (case r of
        Failed err \<Rightarrow> (Failed err, st1)
      | Panicked p \<Rightarrow> (Panicked p, st1)
      | Returned signers \<Rightarrow>
          (if has signers (ToLower (GetLogin (PullRequest ev)))
           then (Returned (), postStatus c (GetSHA (PullRequest ev)) ''success'' signed_description st1)
           else (Returned (),
                 postComment c (GetNumber (PullRequest ev))
                   (''@'' @ ToLower (GetLogin (PullRequest ev)) @ '' '' @ CommentMsg c)
                   (postStatus c (GetSHA (PullRequest ev)) ''failure'' not_signed_description st1))))"
  using assms by (simp add: handlePullRequest_def Let_def split: outcome.splits)

text \<open>
  The pull request handler reads the state only to decode the event: its outcome and the
  calls it adds are the same for every state and event path that give the same event.
\<close>

lemma handlePullRequest_effect:
  "\<exists>r k. \<forall>st a b. parseEvent_PullRequestEvent st b = Returned ev \<longrightarrow>
      handlePullRequest w (c\<lparr>EventName := a, EventPath := b\<rparr>) st = (r, st\<lparr>calls := calls st @ k\<rparr>)"
proof -
  let ?pr = "PullRequest ev"
  let ?author = "ToLower (GetLogin ?pr)"
  obtain r1 k1 where
    load: "\<And>st a b. loadSigners w (c\<lparr>EventName := a, EventPath := b\<rparr>) (GetRef ?pr) st
              = (r1, st\<lparr>calls := calls st @ k1\<rparr>)"
    using loadSigners_effect [of w c "GetRef ?pr"] by blast
  let ?success = "[CreateStatus (RepoOwner c) (RepoName c) (GetSHA ?pr) ''success'' signed_description ''CLA check'']"
  let ?failure = "[CreateStatus (RepoOwner c) (RepoName c) (GetSHA ?pr) ''failure'' not_signed_description ''CLA check'',
                   CreateComment (RepoOwner c) (RepoName c) (GetNumber ?pr) (''@'' @ ?author @ '' '' @ CommentMsg c)]"
  let ?r = "case r1 of Failed err \<Rightarrow> Failed err | Panicked p \<Rightarrow> Panicked p | Returned signers \<Rightarrow> Returned ()"
  let ?k = "case r1 of Returned signers \<Rightarrow> k1 @ (if has signers ?author then ?success else ?failure)
            | _ \<Rightarrow> k1"
  have "handlePullRequest w (c\<lparr>EventName := a, EventPath := b\<rparr>) st = (?r, st\<lparr>calls := calls st @ ?k\<rparr>)"
    if "parseEvent_PullRequestEvent st b = Returned ev" for st a b
  proof -
    from that have ev: "parseEvent_PullRequestEvent st (EventPath (c\<lparr>EventName := a, EventPath := b\<rparr>)) = Returned ev"
      by simp
    show ?thesis
      using handlePullRequest_cases [OF ev load]
      by (cases r1) (simp_all add: postStatus_def postComment_def called_def)
  qed
  then show ?thesis by blast
qed

section \<open>The sheet reader\<close>

lemma example_csv:
  "ReadAll ''header1,header2\<newline>Foo Bar,alice\<newline>Baz,Bob''
     = Inr [[''header1'', ''header2''], [''Foo Bar'', ''alice''], [''Baz'', ''Bob'']]"
  by (simp add: ReadAll_def readLine_def lengthNL_def)

lemma example_rows:
  "sheetRows 0 [[''header1'', ''header2''], [''Foo Bar'', ''alice''], [''Baz'', ''Bob'']] []
     = Returned [''alice'', ''bob'']"
  by code_simp

text \<open>
  Claim C7. When the sheet answers 200 with the body
  \<open>header1,header2\nFoo Bar,alice\nBaz,Bob\<close>, \<open>loadSignersFromGoogleSheet\<close> returns
  exactly the set of \<open>alice\<close> and \<open>bob\<close>. For every body that the CSV reader accepts and
  on which the loader returns, the set holds the normalised second column of the rows
  after the first, and nothing of the first row.
\<close>

theorem sheet_example_signers:
  assumes "csvURL \<noteq> []"
    and "http_Do w csvURL = Response 200 status body"
  shows "(body = ''header1,header2\<newline>Foo Bar,alice\<newline>Baz,Bob'' \<longrightarrow>
            (\<exists>signers. fst (loadSignersFromGoogleSheet w csvURL st) = Returned signers
               \<and> set signers = {''alice'', ''bob''}))
       \<and> (\<forall>rows signers.
            ReadAll body = Inr rows \<and> fst (loadSignersFromGoogleSheet w csvURL st) = Returned signers \<longrightarrow>
            set signers = {ToLower (TrimSpace (row ! 1)) | row.
               row \<in> set (tl rows) \<and> row \<noteq> [] \<and> ToLower (TrimSpace (row ! 1)) \<noteq> []})"
proof (intro conjI impI allI)
  assume "body = ''header1,header2\<newline>Foo Bar,alice\<newline>Baz,Bob''"
  with assms have "fst (loadSignersFromGoogleSheet w csvURL st)
      = sheetRows 0 [[''header1'', ''header2''], [''Foo Bar'', ''alice''], [''Baz'', ''Bob'']] []"
    by (simp add: loadSignersFromGoogleSheet_def example_csv del: sheetRows.simps)
  then show "\<exists>signers. fst (loadSignersFromGoogleSheet w csvURL st) = Returned signers
      \<and> set signers = {''alice'', ''bob''}"
    by (simp only: example_rows) auto
next
  fix rows signers
  assume a: "ReadAll body = Inr rows \<and> fst (loadSignersFromGoogleSheet w csvURL st) = Returned signers"
  then have "ReadAll body = Inr rows"
    and "fst (loadSignersFromGoogleSheet w csvURL st) = Returned signers"
    by simp_all
  with assms have run: "sheetRows 0 rows [] = Returned signers"
    by (simp add: loadSignersFromGoogleSheet_def Let_def del: sheetRows.simps)
  show "set signers = {ToLower (TrimSpace (row ! 1)) | row.
      row \<in> set (tl rows) \<and> row \<noteq> [] \<and> ToLower (TrimSpace (row ! 1)) \<noteq> []}"
  proof (cases rows)
    case Nil
    with run show ?thesis by simp
  next
    case (Cons header rest)
    with run have "sheetRows 1 rest [] = Returned signers" by simp
    from sheetRows_set [OF _ this] Cons show ?thesis by simp
  qed
qed

theorem sheet_example_signers_witness:
  "''https://docs.google.com/sheet.csv'' \<noteq> []
   \<and> (\<exists>signers. fst (loadSignersFromGoogleSheet
          (quiet_world\<lparr>http_Do := \<lambda>url. Response 200 ''200 OK'' ''header1,header2\<newline>Foo Bar,alice\<newline>Baz,Bob''\<rparr>)
          ''https://docs.google.com/sheet.csv'' start) = Returned signers
        \<and> set signers = {''alice'', ''bob''})"
  using sheet_example_signers [of "''https://docs.google.com/sheet.csv''"
      "quiet_world\<lparr>http_Do := \<lambda>url. Response 200 ''200 OK'' ''header1,header2\<newline>Foo Bar,alice\<newline>Baz,Bob''\<rparr>"
      "''200 OK''" "''header1,header2\<newline>Foo Bar,alice\<newline>Baz,Bob''" start]
  by simp

lemma one_column_csv: "ReadAll ''login\<newline>alice'' = Inr [[''login''], [''alice'']]"
  by (simp add: ReadAll_def readLine_def lengthNL_def)

text \<open>
  Claim C3. The reader skips the first row, and the loop skips a later row that has no
  column at all, but no record of a CSV document is such a row. A later row with fewer
  than two columns has exactly one, and it is not skipped: the guard before the read of
  the second column is \<open>len(row) == 0\<close>, so \<open>row[1]\<close> is read on a row of length 1
  and the run panics with index 1 out of range for length 1. This is what happens on
  every sheet with a single column and at least one row under the header, such as
  \<open>login\nalice\<close>.
\<close>

theorem sheet_short_row_panics:
  assumes "csvURL \<noteq> []"
    and "http_Do w csvURL = Response 200 status body"
    and "ReadAll body = Inr rows"
    and "\<exists>row\<in>set (tl rows). length row < 2"
  shows "fst (loadSignersFromGoogleSheet w csvURL st) = Panicked (IndexOutOfRange 1 1)"
proof -
  from assms(4) obtain header rest where rows: "rows = header # rest"
    by (cases rows) auto
  from ReadAll_uniform [OF assms(3)] obtain n where n: "0 < n" "\<forall>row\<in>set rows. length row = n"
    by blast
  from assms(4) rows obtain row where row: "row \<in> set rest" "length row < 2"
    by auto
  with n rows have "length row = 1"
    by (cases "length row") auto
  with row have "\<exists>row\<in>set rest. length row = 1"
    by blast
  then have "sheetRows 0 rows [] = Panicked (IndexOutOfRange 1 1)"
    using sheetRows_panics [of 1 rest "[]"] rows by simp
  with assms(1-3) show ?thesis
    by (simp add: loadSignersFromGoogleSheet_def)
qed

theorem sheet_short_row_panics_witness:
  "''https://docs.google.com/sheet.csv'' \<noteq> []
   \<and> ReadAll ''login\<newline>alice'' = Inr [[''login''], [''alice'']]
   \<and> fst (loadSignersFromGoogleSheet
          (quiet_world\<lparr>http_Do := \<lambda>url. Response 200 ''200 OK'' ''login\<newline>alice''\<rparr>)
          ''https://docs.google.com/sheet.csv'' start) = Panicked (IndexOutOfRange 1 1)"
  using sheet_short_row_panics [of "''https://docs.google.com/sheet.csv''"
      "quiet_world\<lparr>http_Do := \<lambda>url. Response 200 ''200 OK'' ''login\<newline>alice''\<rparr>"
      "''200 OK''" "''login\<newline>alice''" "[[''login''], [''alice'']]" start]
    one_column_csv
  by simp

section \<open>The signer file reader\<close>

lemma example_signer_file:
  "fold signerLine (Split ''# comment\<newline>\<newline>Alice\<newline>BOB\<newline>'' (CHR 0x0A)) []
     = [''alice'', ''bob'']"
  by code_simp

text \<open>
  Claim C8. When the platform gives the content of the signer file, \<open>loadSignersGithub\<close>
  returns the set of the lines of the content, each trimmed and put in lower case, without
  the lines that are blank or begin with \<open>#\<close> once trimmed. On the content
  \<open># comment\n\nAlice\nBOB\n\<close> that set is exactly \<open>alice\<close> and \<open>bob\<close>.
\<close>

theorem repo_file_example_signers:
  assumes "Repositories_GetContents w (RepoOwner c) (RepoName c) (SignersPath c) ref = FileContent s"
  shows "\<exists>signers. fst (loadSignersGithub w c ref st) = Returned signers
       \<and> set signers = {ToLower (TrimSpace line) | line.
            line \<in> set (Split s (CHR 0x0A)) \<and> TrimSpace line \<noteq> [] \<and> \<not> HasPrefix (TrimSpace line) ''#''}
       \<and> (s = ''# comment\<newline>\<newline>Alice\<newline>BOB\<newline>'' \<longrightarrow> set signers = {''alice'', ''bob''})"
proof -
  from assms have "fst (loadSignersGithub w c ref st) = Returned (fold signerLine (Split s (CHR 0x0A)) [])"
    by (simp add: loadSignersGithub_def Let_def)
  moreover have "s = ''# comment\<newline>\<newline>Alice\<newline>BOB\<newline>'' \<longrightarrow>
      set (fold signerLine (Split s (CHR 0x0A)) []) = {''alice'', ''bob''}"
    by (auto simp only: example_signer_file list.set)
  ultimately show ?thesis
    using signerLines_set [of "Split s (CHR 0x0A)" "[]"] by simp
qed

theorem repo_file_example_signers_witness:
  "\<exists>signers. fst (loadSignersGithub
        (quiet_world\<lparr>Repositories_GetContents :=
            \<lambda>owner repo path ref. FileContent ''# comment\<newline>\<newline>Alice\<newline>BOB\<newline>''\<rparr>)
        \<lparr>RepoOwner = ''prequel-dev'', RepoName = ''clabot'', EventName = ''pull_request'',
          EventPath = ''event.json'', SignersPath = ''cla-signers.txt'', Token = ''t'',
          GoogleSheetUrl = [], CommentMsg = ''Please sign.'', IgnoreAuthors = []\<rparr>
        ''main'' start) = Returned signers
     \<and> set signers = {''alice'', ''bob''}"
  using repo_file_example_signers [of
      "quiet_world\<lparr>Repositories_GetContents :=
            \<lambda>owner repo path ref. FileContent ''# comment\<newline>\<newline>Alice\<newline>BOB\<newline>''\<rparr>"
      "\<lparr>RepoOwner = ''prequel-dev'', RepoName = ''clabot'', EventName = ''pull_request'',
          EventPath = ''event.json'', SignersPath = ''cla-signers.txt'', Token = ''t'',
          GoogleSheetUrl = [], CommentMsg = ''Please sign.'', IgnoreAuthors = []\<rparr>"
      "''main''" "''# comment\<newline>\<newline>Alice\<newline>BOB\<newline>''" start]
  by auto

section \<open>Aggregation of the sources\<close>

text \<open>
  Claim C9. Merging a source into the signer set is set union, so merging the same
  source twice changes nothing and the two sources can be merged in either order. A source
  that is not configured adds nothing and cannot fail: with no source configured
  \<open>loadSigners\<close> returns the empty set and makes no call, and whenever each configured
  source returns, \<open>loadSigners\<close> returns the union of what they return.
\<close>

theorem loadSigners_union:
  "(set (fold put m merged) = set merged \<union> set m)
   \<and> (set (fold put m (fold put m merged)) = set (fold put m merged))
   \<and> (set (fold put mf (fold put ms [])) = set (fold put ms (fold put mf [])))
   \<and> (GoogleSheetUrl c = [] \<and> SignersPath c = [] \<longrightarrow> loadSigners w c ref st = (Returned [], st))
   \<and> ((if GoogleSheetUrl c = [] then ms = []
         else fst (loadSignersFromGoogleSheet w (GoogleSheetUrl c) st) = Returned ms)
        \<and> (if SignersPath c = [] then mf = []
            else fst (loadSignersGithub w c ref st) = Returned mf)
        \<longrightarrow> (\<exists>result. fst (loadSigners w c ref st) = Returned result \<and> set result = set ms \<union> set mf))"
proof (intro conjI impI)
  show "set (fold put m merged) = set merged \<union> set m"
    by (rule set_fold_put)
  show "set (fold put m (fold put m merged)) = set (fold put m merged)"
    by (auto simp: set_fold_put)
  show "set (fold put mf (fold put ms [])) = set (fold put ms (fold put mf []))"
    by (auto simp: set_fold_put)
  show "loadSigners w c ref st = (Returned [], st)" if "GoogleSheetUrl c = [] \<and> SignersPath c = []"
    using that by (simp add: loadSigners_def)
  show "\<exists>result. fst (loadSigners w c ref st) = Returned result \<and> set result = set ms \<union> set mf"
    if "(if GoogleSheetUrl c = [] then ms = []
         else fst (loadSignersFromGoogleSheet w (GoogleSheetUrl c) st) = Returned ms)
        \<and> (if SignersPath c = [] then mf = []
            else fst (loadSignersGithub w c ref st) = Returned mf)"
    using that by (auto simp: loadSigners_outcome set_fold_put split: if_splits)
qed

theorem loadSigners_union_witness:
  "fst (loadSignersFromGoogleSheet sheet_and_file (GoogleSheetUrl both_sources) start) = Returned [''a'', ''b'']
   \<and> fst (loadSignersGithub sheet_and_file both_sources ''main'' start) = Returned [''b'', ''c'']
   \<and> (\<exists>result. fst (loadSigners sheet_and_file both_sources ''main'' start) = Returned result
         \<and> set result = {''a'', ''b'', ''c''})
   \<and> loadSigners quiet_world (both_sources\<lparr>GoogleSheetUrl := [], SignersPath := []\<rparr>) ''main'' start
         = (Returned [], start)"
proof -
  have url: "GoogleSheetUrl both_sources \<noteq> []" and path: "SignersPath both_sources \<noteq> []"
    by (simp_all add: both_sources_def)
  have sheet: "fst (loadSignersFromGoogleSheet sheet_and_file (GoogleSheetUrl both_sources) start)
      = Returned [''a'', ''b'']"
    by code_simp
  have repo: "fst (loadSignersGithub sheet_and_file both_sources ''main'' start) = Returned [''b'', ''c'']"
    by code_simp
  have "\<exists>result. fst (loadSigners sheet_and_file both_sources ''main'' start) = Returned result
      \<and> set result = set [''a'', ''b''] \<union> set [''b'', ''c'']"
    using loadSigners_union [where c = both_sources and w = sheet_and_file and ref = "''main''"
        and st = start and ms = "[''a'', ''b'']" and mf = "[''b'', ''c'']"]
      url path sheet repo by simp
  moreover have "set [''a'', ''b''] \<union> set [''b'', ''c''] = {''a'', ''b'', ''c''}"
    by auto
  moreover have "loadSigners quiet_world (both_sources\<lparr>GoogleSheetUrl := [], SignersPath := []\<rparr>) ''main'' start
      = (Returned [], start)"
    using loadSigners_union [where c = "both_sources\<lparr>GoogleSheetUrl := [], SignersPath := []\<rparr>"
        and w = quiet_world and ref = "''main''" and st = start]
    by simp
  ultimately show ?thesis
    using sheet repo by simp
qed

text \<open>
  Claim C1. For a pull request event: when the sheet is configured and its load returns an
  error, \<open>loadSigners\<close> returns that error wrapped with \<open>sheet:\<close>; when the signer file
  is configured, the sheet is not configured or has loaded, and the load of the file
  returns an error, \<open>loadSigners\<close> returns that error wrapped with \<open>repo file:\<close>. In
  both cases \<open>handlePullRequest\<close> returns the same error and posts neither a status nor
  a comment. The sheet is loaded first, so when it fails the file is not read.
\<close>

theorem signer_source_failure_aborts:
  assumes "parseEvent_PullRequestEvent st (EventPath c) = Returned ev"
  shows "(GoogleSheetUrl c \<noteq> []
          \<and> fst (loadSignersFromGoogleSheet w (GoogleSheetUrl c) st) = Failed err \<longrightarrow>
            fst (loadSigners w c (GetRef (PullRequest ev)) st) = Failed (WrapError ''sheet: '' err)
          \<and> fst (handlePullRequest w c st) = Failed (WrapError ''sheet: '' err)
          \<and> posted (snd (handlePullRequest w c st)) = posted st)
       \<and> (SignersPath c \<noteq> []
          \<and> (GoogleSheetUrl c = []
              \<or> (\<exists>m. fst (loadSignersFromGoogleSheet w (GoogleSheetUrl c) st) = Returned m))
          \<and> fst (loadSignersGithub w c (GetRef (PullRequest ev)) st) = Failed err \<longrightarrow>
            fst (loadSigners w c (GetRef (PullRequest ev)) st) = Failed (WrapError ''repo file: '' err)
          \<and> fst (handlePullRequest w c st) = Failed (WrapError ''repo file: '' err)
          \<and> posted (snd (handlePullRequest w c st)) = posted st)"
proof -
  obtain r st1 where run: "loadSigners w c (GetRef (PullRequest ev)) st = (r, st1)"
    by (cases "loadSigners w c (GetRef (PullRequest ev)) st")
  have same: "posted st1 = posted st"
    using loadSigners_posted [of w c "GetRef (PullRequest ev)" st] run by simp
  have aborts: "fst (handlePullRequest w c st) = Failed e \<and> posted (snd (handlePullRequest w c st)) = posted st"
    if "r = Failed e" for e
    using handlePullRequest_cases [OF assms run] that same by simp
  have out: "r = fst (loadSigners w c (GetRef (PullRequest ev)) st)"
    using run by simp
  show ?thesis
  proof (intro conjI impI)
    assume a: "GoogleSheetUrl c \<noteq> [] \<and> fst (loadSignersFromGoogleSheet w (GoogleSheetUrl c) st) = Failed err"
    then have r: "r = Failed (WrapError ''sheet: '' err)"
      unfolding out by (simp add: loadSigners_outcome)
    then show "fst (loadSigners w c (GetRef (PullRequest ev)) st) = Failed (WrapError ''sheet: '' err)"
      using out by simp
    from aborts [OF r] show "fst (handlePullRequest w c st) = Failed (WrapError ''sheet: '' err)"
      and "posted (snd (handlePullRequest w c st)) = posted st"
      by simp_all
  next
    assume a: "SignersPath c \<noteq> []
          \<and> (GoogleSheetUrl c = []
              \<or> (\<exists>m. fst (loadSignersFromGoogleSheet w (GoogleSheetUrl c) st) = Returned m))
          \<and> fst (loadSignersGithub w c (GetRef (PullRequest ev)) st) = Failed err"
    then have r: "r = Failed (WrapError ''repo file: '' err)"
      unfolding out by (auto simp: loadSigners_outcome)
    then show "fst (loadSigners w c (GetRef (PullRequest ev)) st) = Failed (WrapError ''repo file: '' err)"
      using out by simp
    from aborts [OF r] show "fst (handlePullRequest w c st) = Failed (WrapError ''repo file: '' err)"
      and "posted (snd (handlePullRequest w c st)) = posted st"
      by simp_all
  qed
qed

theorem signer_source_failure_aborts_witness:
  "fst (loadSignersFromGoogleSheet
          (quiet_world\<lparr>http_Do := \<lambda>url. Response 500 ''500 Internal Server Error'' []\<rparr>)
          (GoogleSheetUrl both_sources) pr_run)
     = Failed (ErrorString ''google sheets returned 500 Internal Server Error'')
   \<and> fst (handlePullRequest
          (quiet_world\<lparr>http_Do := \<lambda>url. Response 500 ''500 Internal Server Error'' []\<rparr>)
          both_sources pr_run)
     = Failed (WrapError ''sheet: '' (ErrorString ''google sheets returned 500 Internal Server Error''))
   \<and> posted (snd (handlePullRequest
          (quiet_world\<lparr>http_Do := \<lambda>url. Response 500 ''500 Internal Server Error'' []\<rparr>)
          both_sources pr_run)) = []
   \<and> fst (handlePullRequest quiet_world (both_sources\<lparr>GoogleSheetUrl := []\<rparr>) pr_run)
     = Failed (WrapError ''repo file: '' (ErrorString ''404 Not Found''))
   \<and> posted (snd (handlePullRequest quiet_world (both_sources\<lparr>GoogleSheetUrl := []\<rparr>) pr_run)) = []"
proof -
  let ?w = "quiet_world\<lparr>http_Do := \<lambda>url. Response 500 ''500 Internal Server Error'' []\<rparr>"
  let ?c = "both_sources\<lparr>GoogleSheetUrl := []\<rparr>"
  let ?ev = "\<lparr>PullRequest = Some alice_pr\<rparr>"
  have ev: "parseEvent_PullRequestEvent pr_run (EventPath both_sources) = Returned ?ev"
    and ev': "parseEvent_PullRequestEvent pr_run (EventPath ?c) = Returned ?ev"
    by (simp_all add: parseEvent_PullRequestEvent_def pr_run_def both_sources_def)
  have url: "GoogleSheetUrl both_sources \<noteq> []"
    by (simp add: both_sources_def)
  have sheet: "fst (loadSignersFromGoogleSheet ?w (GoogleSheetUrl both_sources) pr_run)
      = Failed (ErrorString ''google sheets returned 500 Internal Server Error'')"
    by (simp add: loadSignersFromGoogleSheet_def both_sources_def)
  have path: "SignersPath ?c \<noteq> []" and nourl: "GoogleSheetUrl ?c = []"
    by (simp_all add: both_sources_def)
  have repo: "fst (loadSignersGithub quiet_world ?c (GetRef (PullRequest ?ev)) pr_run)
      = Failed (ErrorString ''404 Not Found'')"
    by (simp add: loadSignersGithub_def quiet_world_def)
  have none: "posted pr_run = []"
    by (simp add: posted_def pr_run_def start_def)
  from signer_source_failure_aborts [OF ev, of ?w "ErrorString ''google sheets returned 500 Internal Server Error''"]
    signer_source_failure_aborts [OF ev', of quiet_world "ErrorString ''404 Not Found''"]
    url sheet path nourl repo none
  show ?thesis by simp
qed

section \<open>The pull request handler\<close>

text \<open>
  Claim C4. A run of \<open>handlePullRequest\<close> succeeds exactly when the event decodes and
  the signers load. It then posts exactly one commit status, on the head revision of the
  pull request: \<open>success\<close> and no comment when the lower-cased author is in the merged
  signer set, otherwise \<open>failure\<close> and exactly one comment, on the pull request, whose
  body is \<open>@\<close>, the author, a space and the configured message. A run that does not
  succeed posts nothing.
\<close>

theorem handlePullRequest_reports_once:
  "(parseEvent_PullRequestEvent st (EventPath c) = Returned ev
     \<and> fst (loadSigners w c (GetRef (PullRequest ev)) st) = Returned signers \<longrightarrow>
       fst (handlePullRequest w c st) = Returned ()
     \<and> posted (snd (handlePullRequest w c st)) = posted st @
         (if has signers (ToLower (GetLogin (PullRequest ev)))
          then [CreateStatus (RepoOwner c) (RepoName c) (GetSHA (PullRequest ev))
                  ''success'' signed_description ''CLA check'']
          else [CreateStatus (RepoOwner c) (RepoName c) (GetSHA (PullRequest ev))
                  ''failure'' not_signed_description ''CLA check'',
                CreateComment (RepoOwner c) (RepoName c) (GetNumber (PullRequest ev))
                  (''@'' @ ToLower (GetLogin (PullRequest ev)) @ '' '' @ CommentMsg c)]))
   \<and> (fst (handlePullRequest w c st) = Returned () \<longrightarrow>
        (\<exists>ev signers. parseEvent_PullRequestEvent st (EventPath c) = Returned ev
           \<and> fst (loadSigners w c (GetRef (PullRequest ev)) st) = Returned signers))
   \<and> (fst (handlePullRequest w c st) \<noteq> Returned () \<longrightarrow>
        posted (snd (handlePullRequest w c st)) = posted st)"
proof (intro conjI impI)
  assume a: "parseEvent_PullRequestEvent st (EventPath c) = Returned ev
     \<and> fst (loadSigners w c (GetRef (PullRequest ev)) st) = Returned signers"
  then obtain st1 where run: "loadSigners w c (GetRef (PullRequest ev)) st = (Returned signers, st1)"
    by (cases "loadSigners w c (GetRef (PullRequest ev)) st") simp
  have same: "posted st1 = posted st"
    using loadSigners_posted [of w c "GetRef (PullRequest ev)" st] run by simp
  from a have ev: "parseEvent_PullRequestEvent st (EventPath c) = Returned ev" by simp
  show "fst (handlePullRequest w c st) = Returned ()"
    using handlePullRequest_cases [OF ev run] by simp
  show "posted (snd (handlePullRequest w c st)) = posted st @
         (if has signers (ToLower (GetLogin (PullRequest ev)))
          then [CreateStatus (RepoOwner c) (RepoName c) (GetSHA (PullRequest ev))
                  ''success'' signed_description ''CLA check'']
          else [CreateStatus (RepoOwner c) (RepoName c) (GetSHA (PullRequest ev))
                  ''failure'' not_signed_description ''CLA check'',
                CreateComment (RepoOwner c) (RepoName c) (GetNumber (PullRequest ev))
                  (''@'' @ ToLower (GetLogin (PullRequest ev)) @ '' '' @ CommentMsg c)])"
    using handlePullRequest_cases [OF ev run] same
    by (simp add: posted_def postStatus_def postComment_def called_def)
next
  assume ok: "fst (handlePullRequest w c st) = Returned ()"
  show "\<exists>ev signers. parseEvent_PullRequestEvent st (EventPath c) = Returned ev
           \<and> fst (loadSigners w c (GetRef (PullRequest ev)) st) = Returned signers"
  proof (cases "parseEvent_PullRequestEvent st (EventPath c)")
    case (Returned ev)
    obtain r st1 where run: "loadSigners w c (GetRef (PullRequest ev)) st = (r, st1)"
      by (cases "loadSigners w c (GetRef (PullRequest ev)) st")
    from handlePullRequest_cases [OF Returned run] ok obtain signers where "r = Returned signers"
      by (cases r) simp_all
    with Returned run show ?thesis by simp
  next
    case (Failed err)
    with ok show ?thesis by (simp add: handlePullRequest_def)
  next
    case (Panicked p)
    with ok show ?thesis by (simp add: handlePullRequest_def)
  qed
next
  assume bad: "fst (handlePullRequest w c st) \<noteq> Returned ()"
  show "posted (snd (handlePullRequest w c st)) = posted st"
  proof (cases "parseEvent_PullRequestEvent st (EventPath c)")
    case (Returned ev)
    obtain r st1 where run: "loadSigners w c (GetRef (PullRequest ev)) st = (r, st1)"
      by (cases "loadSigners w c (GetRef (PullRequest ev)) st")
    have same: "posted st1 = posted st"
      using loadSigners_posted [of w c "GetRef (PullRequest ev)" st] run by simp
    from handlePullRequest_cases [OF Returned run] bad same show ?thesis
      by (cases r) (simp_all split: if_splits)
  next
    case (Failed err)
    then show ?thesis by (simp add: handlePullRequest_def)
  next
    case (Panicked p)
    then show ?thesis by (simp add: handlePullRequest_def)
  qed
qed

theorem handlePullRequest_reports_once_witness:
  "fst (handlePullRequest (signers_file ''alice\<newline>'') file_only pr_run) = Returned ()
   \<and> posted (snd (handlePullRequest (signers_file ''alice\<newline>'') file_only pr_run))
       = [CreateStatus ''prequel-dev'' ''clabot'' ''c0ffee'' ''success'' signed_description ''CLA check'']
   \<and> fst (handlePullRequest (signers_file ''bob\<newline>'') file_only pr_run) = Returned ()
   \<and> posted (snd (handlePullRequest (signers_file ''bob\<newline>'') file_only pr_run))
       = [CreateStatus ''prequel-dev'' ''clabot'' ''c0ffee'' ''failure'' not_signed_description ''CLA check'',
          CreateComment ''prequel-dev'' ''clabot'' 7 ''@alice Please sign the CLA.'']"
proof -
  let ?ev = "\<lparr>PullRequest = Some alice_pr\<rparr>"
  have ev: "parseEvent_PullRequestEvent pr_run (EventPath file_only) = Returned ?ev"
    by (simp add: parseEvent_PullRequestEvent_def pr_run_def file_only_def both_sources_def)
  have a: "fst (loadSigners (signers_file ''alice\<newline>'') file_only (GetRef (PullRequest ?ev)) pr_run)
      = Returned [''alice'']"
    by code_simp
  have b: "fst (loadSigners (signers_file ''bob\<newline>'') file_only (GetRef (PullRequest ?ev)) pr_run)
      = Returned [''bob'']"
    by code_simp
  have author: "ToLower (GetLogin (Some alice_pr)) = ''alice''"
    by code_simp
  have pr: "GetSHA (Some alice_pr) = ''c0ffee''" "GetNumber (Some alice_pr) = 7"
    by (simp_all add: GetSHA_def GetNumber_def alice_pr_def)
  have c: "RepoOwner file_only = ''prequel-dev''" "RepoName file_only = ''clabot''"
    "CommentMsg file_only = ''Please sign the CLA.''"
    by (simp_all add: file_only_def both_sources_def)
  have none: "posted pr_run = []"
    by (simp add: posted_def pr_run_def start_def)
  from handlePullRequest_reports_once [of pr_run file_only ?ev "signers_file ''alice\<newline>''" "[''alice'']"]
    handlePullRequest_reports_once [of pr_run file_only ?ev "signers_file ''bob\<newline>''" "[''bob'']"]
    ev a b
  show ?thesis
    by (simp add: author pr c none has_def)
qed

section \<open>The comment handler\<close>

text \<open>
  Claim C5. For an issue comment event whose author, in lower case, is in the ignore list,
  or whose issue is not a pull request, or whose body, in lower case, holds neither
  \<open>@cla-bot\<close> nor \<open>cla-bot check\<close>, \<open>handleIssueComment\<close> returns without error and
  leaves the state as it was: no call is made, nothing is posted and no file is written.
\<close>

theorem issue_comment_guards_stop:
  assumes "parseEvent_IssueCommentEvent st (EventPath c) = Returned ev"
    and "has (IgnoreAuthors c) (ToLower (Comment_User_Login ev))
         \<or> (\<exists>issue. Issue ev = Some issue
               \<and> (\<not> Issue_IsPullRequest issue
                    \<or> (\<not> Contains (ToLower (Comment_Body ev)) ''@cla-bot''
                         \<and> \<not> Contains (ToLower (Comment_Body ev)) ''cla-bot check'')))"
  shows "handleIssueComment w c st = (Returned (), st)"
  using assms by (auto simp: handleIssueComment_def Let_def)

theorem issue_comment_guards_stop_witness:
  "handleIssueComment (signers_file ''alice\<newline>'') both_sources
      (comment_run \<lparr>Comment_User_Login = ''GitHub-Actions[bot]'', Comment_Body = ''@cla-bot check'',
                    Issue = Some \<lparr>Issue_Number = 7, Issue_IsPullRequest = True\<rparr>\<rparr>)
     = (Returned (),
        comment_run \<lparr>Comment_User_Login = ''GitHub-Actions[bot]'', Comment_Body = ''@cla-bot check'',
                    Issue = Some \<lparr>Issue_Number = 7, Issue_IsPullRequest = True\<rparr>\<rparr>)
   \<and> handleIssueComment (signers_file ''alice\<newline>'') both_sources
      (comment_run \<lparr>Comment_User_Login = ''Alice'', Comment_Body = ''@cla-bot check'',
                    Issue = Some \<lparr>Issue_Number = 8, Issue_IsPullRequest = False\<rparr>\<rparr>)
     = (Returned (),
        comment_run \<lparr>Comment_User_Login = ''Alice'', Comment_Body = ''@cla-bot check'',
                    Issue = Some \<lparr>Issue_Number = 8, Issue_IsPullRequest = False\<rparr>\<rparr>)
   \<and> handleIssueComment (signers_file ''alice\<newline>'') both_sources
      (comment_run \<lparr>Comment_User_Login = ''Alice'', Comment_Body = ''please review'',
                    Issue = Some \<lparr>Issue_Number = 7, Issue_IsPullRequest = True\<rparr>\<rparr>)
     = (Returned (),
        comment_run \<lparr>Comment_User_Login = ''Alice'', Comment_Body = ''please review'',
                    Issue = Some \<lparr>Issue_Number = 7, Issue_IsPullRequest = True\<rparr>\<rparr>)"
proof -
  let ?bot = "\<lparr>Comment_User_Login = ''GitHub-Actions[bot]'', Comment_Body = ''@cla-bot check'',
                    Issue = Some \<lparr>Issue_Number = 7, Issue_IsPullRequest = True\<rparr>\<rparr>"
  let ?issue = "\<lparr>Comment_User_Login = ''Alice'', Comment_Body = ''@cla-bot check'',
                    Issue = Some \<lparr>Issue_Number = 8, Issue_IsPullRequest = False\<rparr>\<rparr>"
  let ?chat = "\<lparr>Comment_User_Login = ''Alice'', Comment_Body = ''please review'',
                    Issue = Some \<lparr>Issue_Number = 7, Issue_IsPullRequest = True\<rparr>\<rparr>"
  have ev: "\<And>ev. parseEvent_IssueCommentEvent (comment_run ev) (EventPath both_sources) = Returned ev"
    by (simp add: parseEvent_IssueCommentEvent_def comment_run_def both_sources_def)
  have bot: "has (IgnoreAuthors both_sources) (ToLower (Comment_User_Login ?bot))"
    by code_simp
  have chat: "\<not> Contains (ToLower (Comment_Body ?chat)) ''@cla-bot''
      \<and> \<not> Contains (ToLower (Comment_Body ?chat)) ''cla-bot check''"
    by code_simp
  from issue_comment_guards_stop [OF ev, of ?bot "signers_file ''alice\<newline>''"]
    issue_comment_guards_stop [OF ev, of ?issue "signers_file ''alice\<newline>''"]
    issue_comment_guards_stop [OF ev, of ?chat "signers_file ''alice\<newline>''"]
    bot chat
  show ?thesis by simp
qed

text \<open>
  Claim C6, as amended. For an issue comment event that passes the three guards, when the
  platform returns the pull request of the issue's number and the write of the payload
  to \<open>/tmp/pr_event.json\<close> succeeds, \<open>handleIssueComment\<close> does what
  \<open>handlePullRequest\<close> does on a pull request event for that pull request, under the
  same configuration: the same outcome and, after the fetch of the pull request, the same
  calls, so the same author, the same base branch in the read of the signer file, and the
  same status and comment. The handler drops the error of the write, so the condition on
  the write is needed: see the example after the theorem.
\<close>

theorem issue_comment_runs_pull_request_handler:
  assumes "parseEvent_IssueCommentEvent st (EventPath c) = Returned ev"
    and "\<not> has (IgnoreAuthors c) (ToLower (Comment_User_Login ev))"
    and "Issue ev = Some issue"
    and "Issue_IsPullRequest issue"
    and "Contains (ToLower (Comment_Body ev)) ''@cla-bot''
         \<or> Contains (ToLower (Comment_Body ev)) ''cla-bot check''"
    and "PullRequests_Get w (RepoOwner c) (RepoName c) (Issue_Number issue) = Inr pr"
    and "WriteFile_ok w ''/tmp/pr_event.json''"
    and "files st0 path = Some (PullRequestEventJSON \<lparr>PullRequest = Some pr\<rparr>)"
  shows "\<exists>r k. handlePullRequest w (c\<lparr>EventName := ''pull_request'', EventPath := path\<rparr>) st0
                 = (r, st0\<lparr>calls := calls st0 @ k\<rparr>)
             \<and> handleIssueComment w c st
                 = (r, st\<lparr>files := (files st)(''/tmp/pr_event.json'' \<mapsto>
                                    PullRequestEventJSON \<lparr>PullRequest = Some pr\<rparr>),
                          calls := calls st @ GetPullRequest (RepoOwner c) (RepoName c) (Issue_Number issue) # k\<rparr>)"
proof -
  let ?ev = "\<lparr>PullRequest = Some pr\<rparr>"
  let ?tmp = "''/tmp/pr_event.json''"
  let ?st2 = "WriteFile w ?tmp (PullRequestEventJSON ?ev)
                (called (GetPullRequest (RepoOwner c) (RepoName c) (Issue_Number issue)) st)"
  obtain r k where
    run: "\<And>st a b. parseEvent_PullRequestEvent st b = Returned ?ev \<Longrightarrow>
            handlePullRequest w (c\<lparr>EventName := a, EventPath := b\<rparr>) st = (r, st\<lparr>calls := calls st @ k\<rparr>)"
    using handlePullRequest_effect [of ?ev w c] by blast
  have direct: "parseEvent_PullRequestEvent st0 path = Returned ?ev"
    using assms(8) by (simp add: parseEvent_PullRequestEvent_def)
  have written: "parseEvent_PullRequestEvent ?st2 ?tmp = Returned ?ev"
    using assms(7) by (simp add: parseEvent_PullRequestEvent_def WriteFile_def called_def)
  have "handleIssueComment w c st = handlePullRequest w (c\<lparr>EventName := ''pull_request'', EventPath := ?tmp\<rparr>) ?st2"
    using assms(1-6) by (auto simp: handleIssueComment_def Let_def)
  also have "\<dots> = (r, ?st2\<lparr>calls := calls ?st2 @ k\<rparr>)"
    by (rule run [OF written])
  also have "?st2\<lparr>calls := calls ?st2 @ k\<rparr>
      = st\<lparr>files := (files st)(?tmp \<mapsto> PullRequestEventJSON ?ev),
            calls := calls st @ GetPullRequest (RepoOwner c) (RepoName c) (Issue_Number issue) # k\<rparr>"
    using assms(7) by (simp add: WriteFile_def called_def)
  finally have "handleIssueComment w c st
      = (r, st\<lparr>files := (files st)(?tmp \<mapsto> PullRequestEventJSON ?ev),
               calls := calls st @ GetPullRequest (RepoOwner c) (RepoName c) (Issue_Number issue) # k\<rparr>)" .
  with run [OF direct, of "''pull_request''"] show ?thesis by blast
qed

theorem issue_comment_runs_pull_request_handler_witness:
  "fst (handleIssueComment (platform ''alice\<newline>'' True) file_only (comment_run check_comment)) = Returned ()
   \<and> calls (snd (handleIssueComment (platform ''alice\<newline>'' True) file_only (comment_run check_comment)))
     = [GetPullRequest ''prequel-dev'' ''clabot'' 7,
        GetContents ''prequel-dev'' ''clabot'' ''cla-signers.txt'' ''main'',
        CreateStatus ''prequel-dev'' ''clabot'' ''c0ffee'' ''success'' signed_description ''CLA check'']
   \<and> fst (handlePullRequest (platform ''alice\<newline>'' True) file_only pr_run) = Returned ()
   \<and> calls (snd (handlePullRequest (platform ''alice\<newline>'' True) file_only pr_run))
     = [GetContents ''prequel-dev'' ''clabot'' ''cla-signers.txt'' ''main'',
        CreateStatus ''prequel-dev'' ''clabot'' ''c0ffee'' ''success'' signed_description ''CLA check'']"
proof -
  let ?w = "platform ''alice\<newline>'' True"
  let ?issue = "\<lparr>Issue_Number = 7, Issue_IsPullRequest = True\<rparr>"
  have ev: "parseEvent_IssueCommentEvent (comment_run check_comment) (EventPath file_only) = Returned check_comment"
    by (simp add: parseEvent_IssueCommentEvent_def comment_run_def file_only_def both_sources_def)
  have author: "\<not> has (IgnoreAuthors file_only) (ToLower (Comment_User_Login check_comment))"
    by code_simp
  have issue: "Issue check_comment = Some ?issue" "Issue_IsPullRequest ?issue"
    by (simp_all add: check_comment_def)
  have body: "Contains (ToLower (Comment_Body check_comment)) ''@cla-bot''
      \<or> Contains (ToLower (Comment_Body check_comment)) ''cla-bot check''"
    by code_simp
  have fetch: "PullRequests_Get ?w (RepoOwner file_only) (RepoName file_only) (Issue_Number ?issue) = Inr alice_pr"
    by (simp add: platform_def)
  have writable: "WriteFile_ok ?w ''/tmp/pr_event.json''"
    by (simp add: platform_def)
  have direct_file: "files pr_run ''event.json'' = Some (PullRequestEventJSON \<lparr>PullRequest = Some alice_pr\<rparr>)"
    by (simp add: pr_run_def)
  have same: "file_only\<lparr>EventName := ''pull_request'', EventPath := ''event.json''\<rparr> = file_only"
    by (simp add: file_only_def both_sources_def)
  have direct: "fst (handlePullRequest ?w file_only pr_run) = Returned ()"
    "calls (snd (handlePullRequest ?w file_only pr_run))
     = [GetContents ''prequel-dev'' ''clabot'' ''cla-signers.txt'' ''main'',
        CreateStatus ''prequel-dev'' ''clabot'' ''c0ffee'' ''success'' signed_description ''CLA check'']"
    by code_simp+
  have c: "RepoOwner file_only = ''prequel-dev''" "RepoName file_only = ''clabot''"
    by (simp_all add: file_only_def both_sources_def)
  have fresh: "calls pr_run = []" "calls (comment_run check_comment) = []"
    by (simp_all add: pr_run_def comment_run_def start_def)
  from issue_comment_runs_pull_request_handler [OF ev author issue body fetch writable direct_file]
  obtain r k where
    a: "handlePullRequest ?w file_only pr_run = (r, pr_run\<lparr>calls := calls pr_run @ k\<rparr>)"
    and b: "handleIssueComment ?w file_only (comment_run check_comment)
        = (r, (comment_run check_comment)\<lparr>files := (files (comment_run check_comment))(''/tmp/pr_event.json'' \<mapsto>
                                    PullRequestEventJSON \<lparr>PullRequest = Some alice_pr\<rparr>),
                          calls := calls (comment_run check_comment) @ GetPullRequest (RepoOwner file_only) (RepoName file_only) (Issue_Number ?issue) # k\<rparr>)"
    unfolding same by blast
  from a direct fresh have "r = Returned ()"
    and "k = [GetContents ''prequel-dev'' ''clabot'' ''cla-signers.txt'' ''main'',
        CreateStatus ''prequel-dev'' ''clabot'' ''c0ffee'' ''success'' signed_description ''CLA check'']"
    by simp_all
  with b direct show ?thesis
    by (simp add: c fresh)
qed

text \<open>
  Claim C6 as stated does not hold: when the write of the payload fails and no file is
  there, the comment passes the guards and the pull request is fetched, but the handler
  returns the error of reading the file and posts nothing, while a pull request event for
  the same pull request gets a \<open>success\<close> status.
\<close>

theorem issue_comment_write_failure:
  "fst (handleIssueComment (platform ''alice\<newline>'' False) file_only (comment_run check_comment))
     = Failed (ErrorString ''open: no such file or directory'')
   \<and> calls (snd (handleIssueComment (platform ''alice\<newline>'' False) file_only (comment_run check_comment)))
     = [GetPullRequest ''prequel-dev'' ''clabot'' 7]
   \<and> fst (handlePullRequest (platform ''alice\<newline>'' False) file_only pr_run) = Returned ()
   \<and> calls (snd (handlePullRequest (platform ''alice\<newline>'' False) file_only pr_run))
     = [GetContents ''prequel-dev'' ''clabot'' ''cla-signers.txt'' ''main'',
        CreateStatus ''prequel-dev'' ''clabot'' ''c0ffee'' ''success'' signed_description ''CLA check'']"
proof -
  have "fst (handleIssueComment (platform ''alice\<newline>'' False) file_only (comment_run check_comment))
     = Failed (ErrorString ''open: no such file or directory'')"
    by code_simp
  moreover have "calls (snd (handleIssueComment (platform ''alice\<newline>'' False) file_only (comment_run check_comment)))
     = [GetPullRequest ''prequel-dev'' ''clabot'' 7]"
    by code_simp
  moreover have "fst (handlePullRequest (platform ''alice\<newline>'' False) file_only pr_run) = Returned ()"
    by code_simp
  moreover have "calls (snd (handlePullRequest (platform ''alice\<newline>'' False) file_only pr_run))
     = [GetContents ''prequel-dev'' ''clabot'' ''cla-signers.txt'' ''main'',
        CreateStatus ''prequel-dev'' ''clabot'' ''c0ffee'' ''success'' signed_description ''CLA check'']"
    by code_simp
  ultimately show ?thesis by blast
qed

section \<open>Normalisation of identifiers\<close>

text \<open>
  Claim C2, as amended. The lookup is insensitive to letter case on both sides and to
  surrounding white space on the side of the stored entries only. A signer entry is
  trimmed and put in lower case when it is stored; the author's login is put in lower case
  but not trimmed before the lookup. So the author is found exactly when the login in
  lower case equals the trimmed, lower-cased form of an accepted line of the signer file,
  or of the second column of a row of the sheet.
\<close>

theorem signer_lookup_normalisation:
  "(Repositories_GetContents w (RepoOwner c) (RepoName c) (SignersPath c) ref = FileContent s \<longrightarrow>
      (\<exists>signers. fst (loadSignersGithub w c ref st) = Returned signers
         \<and> (has signers (ToLower login) \<longleftrightarrow>
              (\<exists>line\<in>set (Split s (CHR 0x0A)).
                  TrimSpace line \<noteq> [] \<and> \<not> HasPrefix (TrimSpace line) ''#''
                  \<and> ToLower (TrimSpace line) = ToLower login))))
   \<and> (csvURL \<noteq> [] \<and> http_Do w csvURL = Response 200 status body \<and> ReadAll body = Inr rows
        \<and> fst (loadSignersFromGoogleSheet w csvURL st) = Returned signers \<longrightarrow>
          (has signers (ToLower login) \<longleftrightarrow>
             (\<exists>row\<in>set (tl rows). row \<noteq> [] \<and> ToLower (TrimSpace (row ! 1)) \<noteq> []
                 \<and> ToLower (TrimSpace (row ! 1)) = ToLower login)))"
proof (intro conjI impI)
  assume "Repositories_GetContents w (RepoOwner c) (RepoName c) (SignersPath c) ref = FileContent s"
  then have "fst (loadSignersGithub w c ref st) = Returned (fold signerLine (Split s (CHR 0x0A)) [])"
    by (simp add: loadSignersGithub_def Let_def)
  with signerLines_has [of "Split s (CHR 0x0A)" "ToLower login"]
  show "\<exists>signers. fst (loadSignersGithub w c ref st) = Returned signers
         \<and> (has signers (ToLower login) \<longleftrightarrow>
              (\<exists>line\<in>set (Split s (CHR 0x0A)).
                  TrimSpace line \<noteq> [] \<and> \<not> HasPrefix (TrimSpace line) ''#''
                  \<and> ToLower (TrimSpace line) = ToLower login))"
    by (intro exI [of _ "fold signerLine (Split s (CHR 0x0A)) []"] conjI)
next
  assume a: "csvURL \<noteq> [] \<and> http_Do w csvURL = Response 200 status body \<and> ReadAll body = Inr rows
        \<and> fst (loadSignersFromGoogleSheet w csvURL st) = Returned signers"
  then have "csvURL \<noteq> []" "http_Do w csvURL = Response 200 status body" "ReadAll body = Inr rows"
    "fst (loadSignersFromGoogleSheet w csvURL st) = Returned signers"
    by simp_all
  then have run: "sheetRows 0 rows [] = Returned signers"
    by (simp add: loadSignersFromGoogleSheet_def Let_def del: sheetRows.simps)
  have "set signers = {ToLower (TrimSpace (row ! 1)) | row.
      row \<in> set (tl rows) \<and> row \<noteq> [] \<and> ToLower (TrimSpace (row ! 1)) \<noteq> []}"
  proof (cases rows)
    case Nil
    with run show ?thesis by simp
  next
    case (Cons header rest)
    with run have "sheetRows 1 rest [] = Returned signers" by simp
    from sheetRows_set [OF _ this] Cons show ?thesis by simp
  qed
  then show "has signers (ToLower login) \<longleftrightarrow>
             (\<exists>row\<in>set (tl rows). row \<noteq> [] \<and> ToLower (TrimSpace (row ! 1)) \<noteq> []
                 \<and> ToLower (TrimSpace (row ! 1)) = ToLower login)"
    by (rule sheetRows_has)
qed

theorem signer_lookup_normalisation_witness:
  "(\<exists>signers. fst (loadSignersGithub (signers_file ''# signers\<newline>  Alice  \<newline>'') file_only ''main'' start)
        = Returned signers \<and> has signers (ToLower ''ALICE''))
   \<and> (\<exists>signers. fst (loadSignersGithub (signers_file ''# signers\<newline>  Alice  \<newline>'') file_only ''main'' start)
        = Returned signers \<and> has signers (ToLower ''alice''))
   \<and> (\<exists>signers. fst (loadSignersGithub (signers_file ''# signers\<newline>  Alice  \<newline>'') file_only ''main'' start)
        = Returned signers \<and> \<not> has signers (ToLower '' alice''))"
proof -
  let ?s = "''# signers\<newline>  Alice  \<newline>''"
  have lines: "Split ?s (CHR 0x0A) = [''# signers'', ''  Alice  '', []]"
    by simp
  have contents: "Repositories_GetContents (signers_file ?s) (RepoOwner file_only) (RepoName file_only)
      (SignersPath file_only) ''main'' = FileContent ?s"
    by (simp add: signers_file_def)
  have t: "TrimSpace ''# signers'' = ''# signers''" "TrimSpace ''  Alice  '' = ''Alice''" "TrimSpace [] = []"
    by code_simp+
  have l: "ToLower ''ALICE'' = ''alice''" "ToLower ''alice'' = ''alice''" "ToLower ''Alice'' = ''alice''"
    "ToLower '' alice'' = '' alice''" "ToLower ''# signers'' = ''# signers''"
    by code_simp+
  from signer_lookup_normalisation [of "signers_file ?s" file_only "''main''" ?s start "''ALICE''"]
    signer_lookup_normalisation [of "signers_file ?s" file_only "''main''" ?s start "''alice''"]
    signer_lookup_normalisation [of "signers_file ?s" file_only "''main''" ?s start "'' alice''"]
    contents
  show ?thesis
    by (auto simp: lines t l HasPrefix_def)
qed

text \<open>
  Claim C2 as stated does not hold: the signer file holds \<open>alice\<close>, the author's login
  is \<open>Alice\<close> with a space on each side, and the lookup fails; the run posts
  \<open>failure\<close> and a comment.
\<close>

theorem untrimmed_author_not_found:
  "fst (loadSignersGithub (signers_file ''alice\<newline>'') file_only ''main'' spaced_run) = Returned [''alice'']
   \<and> \<not> has [''alice''] (ToLower '' Alice '')
   \<and> fst (handlePullRequest (signers_file ''alice\<newline>'') file_only spaced_run) = Returned ()
   \<and> posted (snd (handlePullRequest (signers_file ''alice\<newline>'') file_only spaced_run))
       = [CreateStatus ''prequel-dev'' ''clabot'' ''c0ffee'' ''failure'' not_signed_description ''CLA check'',
          CreateComment ''prequel-dev'' ''clabot'' 7 ''@ alice  Please sign the CLA.'']"
proof -
  have "fst (loadSignersGithub (signers_file ''alice\<newline>'') file_only ''main'' spaced_run) = Returned [''alice'']"
    by code_simp
  moreover have "\<not> has [''alice''] (ToLower '' Alice '')"
    by code_simp
  moreover have "fst (handlePullRequest (signers_file ''alice\<newline>'') file_only spaced_run) = Returned ()"
    by code_simp
  moreover have "posted (snd (handlePullRequest (signers_file ''alice\<newline>'') file_only spaced_run))
       = [CreateStatus ''prequel-dev'' ''clabot'' ''c0ffee'' ''failure'' not_signed_description ''CLA check'',
          CreateComment ''prequel-dev'' ''clabot'' 7 ''@ alice  Please sign the CLA.'']"
    by code_simp
  ultimately show ?thesis by blast
qed

section \<open>Start-up configuration\<close>

text \<open>
  Claim C10. \<open>fromEnv\<close> reads the first two fields of \<open>GITHUB_REPOSITORY\<close> split on
  \<open>"/"\<close>. It returns a configuration exactly when the value holds a \<open>"/"\<close>; for every
  value without one, the empty string among them, the split has a single field, the read
  of the second field is out of range (index 1, length 1) and \<open>fromEnv\<close> panics, so no
  configuration is built.
\<close>

theorem fromEnv_needs_slash:
  "((\<exists>c. fromEnv getenv = Returned c) \<longleftrightarrow> CHR ''/'' \<in> set (getenv ''GITHUB_REPOSITORY''))
   \<and> (CHR ''/'' \<notin> set (getenv ''GITHUB_REPOSITORY'')
        \<longrightarrow> fromEnv getenv = Panicked (IndexOutOfRange 1 1))"
proof (cases "CHR ''/'' \<in> set (getenv ''GITHUB_REPOSITORY'')")
  case True
  then have "2 \<le> length (Split (getenv ''GITHUB_REPOSITORY'') (CHR ''/''))"
    by (simp only: Split_two_fields)
  then have "0 < length (Split (getenv ''GITHUB_REPOSITORY'') (CHR ''/''))"
    and "1 < length (Split (getenv ''GITHUB_REPOSITORY'') (CHR ''/''))"
    by auto
  then have "\<exists>c. fromEnv getenv = Returned c"
    unfolding fromEnv_def index_def Let_def by simp
  with True show ?thesis by simp
next
  case False
  then have "count_list (getenv ''GITHUB_REPOSITORY'') (CHR ''/'') = 0"
    by (simp add: count_list_0_iff)
  then have "length (Split (getenv ''GITHUB_REPOSITORY'') (CHR ''/'')) = 1"
    by (simp add: Split_length)
  then have "fromEnv getenv = Panicked (IndexOutOfRange 1 1)"
    by (simp add: fromEnv_def index_def Let_def Split_not_Nil)
  with False show ?thesis by simp
qed

text \<open>Two environments without a \<open>"/"\<close>: a bare repository name, and nothing set at all.\<close>

theorem fromEnv_needs_slash_witness:
  "CHR ''/'' \<notin> set ((\<lambda>name. if name = ''GITHUB_REPOSITORY'' then ''clabot'' else []) ''GITHUB_REPOSITORY'')
   \<and> fromEnv (\<lambda>name. if name = ''GITHUB_REPOSITORY'' then ''clabot'' else []) = Panicked (IndexOutOfRange 1 1)
   \<and> fromEnv (\<lambda>name. []) = Panicked (IndexOutOfRange 1 1)"
  using fromEnv_needs_slash [of "\<lambda>name. if name = ''GITHUB_REPOSITORY'' then ''clabot'' else []"]
        fromEnv_needs_slash [of "\<lambda>name. []"]
  by simp

end
